theory Spec2Isabelle
  imports Main
begin

text \<open>
  A model of the Google Apps Script sources of the website access request extension: the PIN
  validation script, the access request script with its access log writer and timestamp
  repair, and the handlers for URL logging and PIN checking that come as separate scripts.

  Every script function is a function of the model under its own name; where two scripts
  have a function of the same name the names carry a suffix (\<open>_pl\<close> for the PIN list
  script, \<open>_ar\<close> for the access request script, \<open>_p0\<close> and \<open>_p1\<close> for the unnamed
  parts 000 and 001, \<open>_v2\<close> for the second handler that ends the access request file). A
  loop written out inside a function is a recursive function of its own. A spreadsheet is a
  value that a function reads and, where the script writes, returns changed. An exception is
  a value: a function whose script can throw returns a sum, and a handler's \<open>try\<close> and
  \<open>catch\<close> is the case distinction on it. Exceptions are modelled where a spreadsheet is
  opened, where a sheet is inserted, where the post data are parsed, where the second
  handler formats a date, and where a script throws itself. Calls that only log, and calls
  that only change the look of a sheet (font, background, number format, column width), are
  left out.
\<close>

section \<open>JavaScript strings and values\<close>

text \<open>
  Strings are lists of 8-bit characters, read as the code points 0 to 255. The string
  functions of the scripts are modelled on that range. \<open>trim\<close> removes the white space and
  line terminators of the language that lie in it: the space, the characters 9 to 13 and the
  no-break space 160. \<open>toUpperCase\<close> and \<open>toLowerCase\<close> change the letters a to z and the
  accented letters 224 to 254 (247, the division sign, apart) with their capitals 192 to 222
  (215, the multiplication sign, apart). Three letters of the range have capitals that are no
  8-bit characters or no single character (181, 223 and 255); they are left alone here, which
  is where the model departs from the language.
\<close>

definition isSpace :: "char \<Rightarrow> bool" where
  "isSpace c =
     (c \<in> set [CHR '' '', CHR 0x09, CHR 0x0A, CHR 0x0B, CHR 0x0C, CHR 0x0D, CHR 0xA0])"

definition isDigit :: "char \<Rightarrow> bool" where
  "isDigit c = (c \<in> set ''0123456789'')"

definition lowerLetters :: string where
  "lowerLetters = ''abcdefghijklmnopqrstuvwxyz''"

definition upperLetters :: string where
  "upperLetters = ''ABCDEFGHIJKLMNOPQRSTUVWXYZ''"

definition isUpperAZ :: "char \<Rightarrow> bool" where
  "isUpperAZ c = (c \<in> set upperLetters)"

definition isAlnum :: "char \<Rightarrow> bool" where
  "isAlnum c = (c \<in> set upperLetters \<or> c \<in> set lowerLetters \<or> isDigit c)"

definition lowerAccented :: string where
  "lowerAccented =
     [CHR 0xE0, CHR 0xE1, CHR 0xE2, CHR 0xE3, CHR 0xE4, CHR 0xE5, CHR 0xE6, CHR 0xE7,
      CHR 0xE8, CHR 0xE9, CHR 0xEA, CHR 0xEB, CHR 0xEC, CHR 0xED, CHR 0xEE, CHR 0xEF,
      CHR 0xF0, CHR 0xF1, CHR 0xF2, CHR 0xF3, CHR 0xF4, CHR 0xF5, CHR 0xF6,
      CHR 0xF8, CHR 0xF9, CHR 0xFA, CHR 0xFB, CHR 0xFC, CHR 0xFD, CHR 0xFE]"

definition upperAccented :: string where
  "upperAccented =
     [CHR 0xC0, CHR 0xC1, CHR 0xC2, CHR 0xC3, CHR 0xC4, CHR 0xC5, CHR 0xC6, CHR 0xC7,
      CHR 0xC8, CHR 0xC9, CHR 0xCA, CHR 0xCB, CHR 0xCC, CHR 0xCD, CHR 0xCE, CHR 0xCF,
      CHR 0xD0, CHR 0xD1, CHR 0xD2, CHR 0xD3, CHR 0xD4, CHR 0xD5, CHR 0xD6,
      CHR 0xD8, CHR 0xD9, CHR 0xDA, CHR 0xDB, CHR 0xDC, CHR 0xDD, CHR 0xDE]"

definition upperChar :: "char \<Rightarrow> char" where
  "upperChar c =
     (case map_of (zip (lowerLetters @ lowerAccented) (upperLetters @ upperAccented)) c of
        Some u \<Rightarrow> u | None \<Rightarrow> c)"

definition lowerChar :: "char \<Rightarrow> char" where
  "lowerChar c =
     (case map_of (zip (upperLetters @ upperAccented) (lowerLetters @ lowerAccented)) c of
        Some l \<Rightarrow> l | None \<Rightarrow> c)"

definition toUpperCase :: "string \<Rightarrow> string" where
  "toUpperCase s = map upperChar s"

definition toLowerCase :: "string \<Rightarrow> string" where
  "toLowerCase s = map lowerChar s"

definition trim :: "string \<Rightarrow> string" where
  "trim s = rev (dropWhile isSpace (rev (dropWhile isSpace s)))"

text \<open>\<open>startsWith s p\<close> is \<open>s.startsWith(p)\<close>; \<open>includesStr s p\<close> is \<open>s.includes(p)\<close>.\<close>

definition startsWith :: "string \<Rightarrow> string \<Rightarrow> bool" where
  "startsWith s p = (take (length p) s = p)"

fun includesStr :: "string \<Rightarrow> string \<Rightarrow> bool" where
  "includesStr [] p = (p = [])"
| "includesStr (c # cs) p = (startsWith (c # cs) p \<or> includesStr cs p)"

text \<open>\<open>joinWith sep xs\<close> is \<open>xs.join(sep)\<close> on an array of strings.\<close>

fun joinWith :: "string \<Rightarrow> string list \<Rightarrow> string" where
  "joinWith sep [] = []"
| "joinWith sep [x] = x"
| "joinWith sep (x # y # ys) = x @ sep @ joinWith sep (y # ys)"

text \<open>
  The values a sheet cell or a JSON field holds: text, a number (integers only), a boolean, or
  a date given by its time value in milliseconds. An empty cell reads as the empty text.
\<close>

datatype jsval = JStr string | JNum int | JBool bool | JDate int

fun truthy :: "jsval \<Rightarrow> bool" where
  "truthy (JStr s) = (s \<noteq> [])"
| "truthy (JNum n) = (n \<noteq> 0)"
| "truthy (JBool b) = b"
| "truthy (JDate t) = True"

text \<open>\<open>orDefault v d\<close> is \<open>v || d\<close> for a field \<open>v\<close> that may be missing.\<close>

definition orDefault :: "jsval option \<Rightarrow> jsval \<Rightarrow> jsval" where
  "orDefault v d = (case v of None \<Rightarrow> d | Some x \<Rightarrow> if truthy x then x else d)"

text \<open>\<open>a === b\<close>: two dates are distinct objects and never strictly equal.\<close>

fun strictEq :: "jsval \<Rightarrow> jsval \<Rightarrow> bool" where
  "strictEq (JDate a) b = False"
| "strictEq a b = (a = b)"

text \<open>The decimal digits of a natural number.\<close>

fun showNat :: "nat \<Rightarrow> string" where
  "showNat n =
     (if n < 10 then [''0123456789'' ! n]
      else showNat (n div 10) @ [''0123456789'' ! (n mod 10)])"

declare showNat.simps [simp del]

definition showInt :: "int \<Rightarrow> string" where
  "showInt i = (if i < 0 then CHR ''-'' # showNat (nat (- i)) else showNat (nat i))"

section \<open>The host platform\<close>

text \<open>
  The scripts run inside a hosted scripting platform. What the platform computes is taken as a
  parameter of the model, one record of functions:
  \<^item> \<open>parseDate s\<close> is \<open>new Date(s).getTime()\<close>, \<open>None\<close> standing for \<open>NaN\<close>;
  \<^item> \<open>formatReadable t\<close> is \<open>Utilities.formatDate\<close> of the date with time value \<open>t\<close> in the
    script's time zone with the pattern \<open>EEEE, MMM dd, yyyy hh:mm a\<close>;
  \<^item> \<open>formatLA d\<close> is \<open>Utilities.formatDate\<close> in the zone America/Los_Angeles with the pattern
    \<open>MM/dd/yyyy h:mm:ss a\<close>; \<open>d\<close> is \<open>None\<close> for an invalid date, and the host may throw;
  \<^item> \<open>clock\<close> is the time value of \<open>new Date()\<close> (one value for the whole invocation);
  \<^item> \<open>toISOString t\<close> and \<open>dateToString t\<close> are the methods of a date of that name;
  \<^item> \<open>exponentForm n\<close> is the text of a number whose magnitude is 10 to the 21 or more,
    which the language writes with an exponent (1e+21);
  \<^item> \<open>strToNumber s\<close> is the number a string converts to, \<open>None\<close> standing for \<open>NaN\<close>;
  \<^item> \<open>display v\<close> is the display value of a cell holding a value that is not text.
\<close>

datatype exn = Exn string

fun exnToString :: "exn \<Rightarrow> string" where
  "exnToString (Exn s) = s"

record host =
  parseDate :: "string \<Rightarrow> int option"
  formatReadable :: "int \<Rightarrow> string"
  formatLA :: "int option \<Rightarrow> exn + string"
  clock :: int
  toISOString :: "int \<Rightarrow> string"
  dateToString :: "int \<Rightarrow> string"
  exponentForm :: "int \<Rightarrow> string"
  strToNumber :: "string \<Rightarrow> int option"
  display :: "jsval \<Rightarrow> string"

text \<open>\<open>value.toString()\<close>. A number below 10 to the 21 in magnitude is written with all its digits.\<close>

fun toStringJs :: "host \<Rightarrow> jsval \<Rightarrow> string" where
  "toStringJs P (JStr s) = s"
| "toStringJs P (JNum n) =
     (if \<bar>n\<bar> < 1000000000000000000000 then showInt n else exponentForm P n)"
| "toStringJs P (JBool b) = (if b then ''true'' else ''false'')"
| "toStringJs P (JDate t) = dateToString P t"

text \<open>The number a value converts to in \<open>isNaN(value)\<close> and \<open>value > 1000000000\<close>.\<close>

fun toNumber :: "host \<Rightarrow> jsval \<Rightarrow> int option" where
  "toNumber P (JStr s) = strToNumber P s"
| "toNumber P (JNum n) = Some n"
| "toNumber P (JBool b) = Some (if b then 1 else 0)"
| "toNumber P (JDate t) = Some t"

text \<open>
  The time value of \<open>new Date(n)\<close> for a number: beyond 8.64e15 milliseconds either side of the
  epoch the date is invalid.
\<close>

definition timeClip :: "int \<Rightarrow> int option" where
  "timeClip n = (if \<bar>n\<bar> \<le> 8640000000000000 then Some n else None)"

text \<open>\<open>new Date(v).getTime()\<close> for a value.\<close>

fun newDate :: "host \<Rightarrow> jsval \<Rightarrow> int option" where
  "newDate P (JStr s) = parseDate P s"
| "newDate P (JNum n) = timeClip n"
| "newDate P (JBool b) = Some (if b then 1 else 0)"
| "newDate P (JDate t) = Some t"

section \<open>Timestamp repair (gsheet_gappscriptcode_access_requests.js)\<close>

text \<open>
  \<open>matchMask m s\<close>: the string \<open>s\<close> has the shape \<open>m\<close>, where the letter d of the mask stands
  for one decimal digit (\<open>\d\<close>) and every other character of the mask for itself.
\<close>

fun matchMask :: "string \<Rightarrow> string \<Rightarrow> bool" where
  "matchMask [] [] = True"
| "matchMask (m # ms) (c # cs) =
     ((if m = CHR ''d'' then isDigit c else c = m) \<and> matchMask ms cs)"
| "matchMask _ _ = False"

definition weekdays :: "string list" where
  "weekdays = [''Monday'', ''Tuesday'', ''Wednesday'', ''Thursday'', ''Friday'', ''Saturday'',
     ''Sunday'']"

definition months :: "string list" where
  "months = [''Jan'', ''Feb'', ''Mar'', ''Apr'', ''May'', ''Jun'', ''Jul'', ''Aug'', ''Sep'',
     ''Oct'', ''Nov'', ''Dec'']"

definition ampm :: "string \<Rightarrow> bool" where
  "ampm s = (s = ''AM'' \<or> s = ''PM'')"

text \<open>The part \<open>\d{1,2}:\d{2} (AM|PM)$\<close> of the pattern.\<close>

definition timePart :: "string \<Rightarrow> bool" where
  "timePart t = ((matchMask ''d:dd '' (take 5 t) \<and> ampm (drop 5 t))
     \<or> (matchMask ''dd:dd '' (take 6 t) \<and> ampm (drop 6 t)))"

text \<open>The part \<open>, (Jan|...|Dec) \d{2}, \d{4} \<close> of the pattern, followed by the time part.\<close>

definition readableTail :: "string \<Rightarrow> bool" where
  "readableTail r = (take 2 r = '', '' \<and> take 3 (drop 2 r) \<in> set months
     \<and> matchMask '' dd, dddd '' (take 10 (drop 5 r)) \<and> timePart (drop 15 r))"

text \<open>
  \<open>isReadableTimestampFormat\<close>: the pattern
  \<open>^(Monday|...|Sunday), (Jan|...|Dec) \d{2}, \d{4} \d{1,2}:\d{2} (AM|PM)$\<close>.
\<close>

definition isReadableTimestampFormat :: "string \<Rightarrow> bool" where
  "isReadableTimestampFormat v =
     list_ex (\<lambda>d. startsWith v d \<and> readableTail (drop (length d) v)) weekdays"

text \<open>The pattern \<open>^\d{4}-\d{2}-\d{2}T\d{2}:\d{2}:\d{2}(\.\d{3})?Z?$\<close>.\<close>

definition isIso8601 :: "string \<Rightarrow> bool" where
  "isIso8601 s = (matchMask ''dddd-dd-ddTdd:dd:dd'' (take 19 s)
     \<and> (drop 19 s = [] \<or> drop 19 s = ''Z'' \<or> matchMask ''.ddd'' (drop 19 s)
          \<or> matchMask ''.dddZ'' (drop 19 s)))"

definition createReadableTimestamp :: "host \<Rightarrow> string" where
  "createReadableTimestamp P = formatReadable P (clock P)"

text \<open>
  \<open>detectAndFixTimestamp\<close>. The date is taken from the text when it is ISO 8601, from the
  value when it is a date, from the number when the value is numeric and above 1000000000
  (seconds when its text has ten characters, milliseconds otherwise), and from the text
  otherwise; an invalid date gives the trimmed text back.
\<close>

definition detectAndFixTimestamp :: "host \<Rightarrow> jsval \<Rightarrow> string" where
  "detectAndFixTimestamp P v =
     (if \<not> truthy v then createReadableTimestamp P
      else let stringValue = trim (toStringJs P v) in
        if isReadableTimestampFormat stringValue then stringValue
        else let date =
            (if isIso8601 stringValue then parseDate P stringValue
             else case v of
               JDate t \<Rightarrow> Some t
             | _ \<Rightarrow>
               (case toNumber P v of
                  Some n \<Rightarrow>
                    if n > 1000000000
                    then timeClip (n * (if length (toStringJs P v) = 10 then 1000 else 1))
                    else parseDate P stringValue
                | None \<Rightarrow> parseDate P stringValue))
          in case date of
               None \<Rightarrow> stringValue
             | Some t \<Rightarrow> formatReadable P t)"

section \<open>Spreadsheets\<close>

text \<open>
  A sheet has a name and a grid of cells: a list of rows from row 1, each row a list of cell
  values from column A. A cell that the grid does not list is empty, and an empty cell holds
  the empty text. Rows and columns are numbered from 1, as the host numbers them. A
  spreadsheet is the list of its sheets in the order \<open>getSheets()\<close> gives them.
  Opening a spreadsheet by its identifier may fail: a store is either the exception that
  \<open>SpreadsheetApp.openById\<close> throws or the spreadsheet it returns. The log of access
  requests and the list of PINs are two stores.
\<close>

record sheet =
  sname :: string
  grid :: "jsval list list"

type_synonym spreadsheet = "sheet list"

type_synonym store = "exn + spreadsheet"

definition blankCell :: jsval where
  "blankCell = JStr []"

definition isBlank :: "jsval \<Rightarrow> bool" where
  "isBlank v = (v = JStr [])"

definition dropTrailing :: "('a \<Rightarrow> bool) \<Rightarrow> 'a list \<Rightarrow> 'a list" where
  "dropTrailing p xs = rev (dropWhile p (rev xs))"

text \<open>The cells of a row up to its last cell with content.\<close>

definition rowContent :: "jsval list \<Rightarrow> jsval list" where
  "rowContent r = dropTrailing isBlank r"

definition getLastRow :: "sheet \<Rightarrow> nat" where
  "getLastRow sh = length (dropTrailing (\<lambda>r. rowContent r = []) (grid sh))"

definition getLastColumn :: "sheet \<Rightarrow> nat" where
  "getLastColumn sh = foldr (\<lambda>r m. max (length (rowContent r)) m) (grid sh) 0"

definition getMaxRows :: "sheet \<Rightarrow> nat" where
  "getMaxRows sh = length (grid sh)"

definition cellAt :: "sheet \<Rightarrow> nat \<Rightarrow> nat \<Rightarrow> jsval" where
  "cellAt sh r c =
     (if 1 \<le> r \<and> r \<le> length (grid sh) \<and> 1 \<le> c \<and> c \<le> length (grid sh ! (r - 1))
      then grid sh ! (r - 1) ! (c - 1) else blankCell)"

text \<open>
  \<open>getRowValues sh r c n\<close> is \<open>sh.getRange(r, c, 1, n).getValues()[0]\<close>,
  \<open>getColumnValues sh r c n\<close> lists \<open>sh.getRange(r, c, n, 1).getValues()[i][0]\<close>, and
  \<open>getValues sh r c nr nc\<close> is \<open>sh.getRange(r, c, nr, nc).getValues()\<close>.
\<close>

definition getRowValues :: "sheet \<Rightarrow> nat \<Rightarrow> nat \<Rightarrow> nat \<Rightarrow> jsval list" where
  "getRowValues sh r c n = map (\<lambda>j. cellAt sh r (c + j)) [0..<n]"

definition getColumnValues :: "sheet \<Rightarrow> nat \<Rightarrow> nat \<Rightarrow> nat \<Rightarrow> jsval list" where
  "getColumnValues sh r c n = map (\<lambda>i. cellAt sh (r + i) c) [0..<n]"

definition getValues :: "sheet \<Rightarrow> nat \<Rightarrow> nat \<Rightarrow> nat \<Rightarrow> nat \<Rightarrow> jsval list list" where
  "getValues sh r c nr nc = map (\<lambda>i. getRowValues sh (r + i) c nc) [0..<nr]"

text \<open>The display value of a cell: a text cell shows its text, the host renders the rest.\<close>

definition displayValue :: "host \<Rightarrow> jsval \<Rightarrow> string" where
  "displayValue P v = (case v of JStr s \<Rightarrow> s | _ \<Rightarrow> display P v)"

definition getColumnDisplayValues :: "host \<Rightarrow> sheet \<Rightarrow> nat \<Rightarrow> nat \<Rightarrow> nat \<Rightarrow> string list" where
  "getColumnDisplayValues P sh r c n = map (displayValue P) (getColumnValues sh r c n)"

definition padTo :: "nat \<Rightarrow> 'a \<Rightarrow> 'a list \<Rightarrow> 'a list" where
  "padTo n x xs = xs @ replicate (n - length xs) x"

text \<open>\<open>sh.getRange(r, c).setValue(v)\<close>.\<close>

definition setValue :: "sheet \<Rightarrow> nat \<Rightarrow> nat \<Rightarrow> jsval \<Rightarrow> sheet" where
  "setValue sh r c v =
     (let g = padTo r [] (grid sh)
      in sh\<lparr>grid := g[r - 1 := (padTo c blankCell (g ! (r - 1)))[c - 1 := v]]\<rparr>)"

text \<open>\<open>setValues\<close> on a range of one row, and on a range of one column.\<close>

fun setRowValues :: "sheet \<Rightarrow> nat \<Rightarrow> nat \<Rightarrow> jsval list \<Rightarrow> sheet" where
  "setRowValues sh r c [] = sh"
| "setRowValues sh r c (v # vs) = setRowValues (setValue sh r c v) r (Suc c) vs"

fun setColumnValues :: "sheet \<Rightarrow> nat \<Rightarrow> nat \<Rightarrow> jsval list \<Rightarrow> sheet" where
  "setColumnValues sh r c [] = sh"
| "setColumnValues sh r c (v # vs) = setColumnValues (setValue sh r c v) (Suc r) c vs"

text \<open>\<open>sh.getRange(r, c, nr, nc).clearContent()\<close>: the cells of the range become empty.\<close>

definition clearContent :: "sheet \<Rightarrow> nat \<Rightarrow> nat \<Rightarrow> nat \<Rightarrow> nat \<Rightarrow> sheet" where
  "clearContent sh r c nr nc =
     sh\<lparr>grid := map (\<lambda>(i, row).
         if r \<le> i \<and> i < r + nr
         then map (\<lambda>(j, v). if c \<le> j \<and> j < c + nc then blankCell else v) (enumerate 1 row)
         else row) (enumerate 1 (grid sh))\<rparr>"

text \<open>\<open>appendRow\<close> writes the row after the last row with content.\<close>

definition appendRow :: "sheet \<Rightarrow> jsval list \<Rightarrow> sheet" where
  "appendRow sh vals = sh\<lparr>grid := take (getLastRow sh) (grid sh) @ [vals]\<rparr>"

definition insertRowBefore1 :: "sheet \<Rightarrow> sheet" where
  "insertRowBefore1 sh = sh\<lparr>grid := [] # grid sh\<rparr>"

fun findIndex :: "('a \<Rightarrow> bool) \<Rightarrow> 'a list \<Rightarrow> nat option" where
  "findIndex p [] = None"
| "findIndex p (x # xs) = (if p x then Some 0 else map_option Suc (findIndex p xs))"

text \<open>
  Sheets are handled by their position in the spreadsheet. \<open>getSheetByName\<close> gives the
  position of the sheet of that exact name. \<open>insertSheet\<close> adds an empty sheet after the
  others and throws when a sheet of that name, in any letter case, is there.
\<close>

definition getSheetByName :: "spreadsheet \<Rightarrow> string \<Rightarrow> nat option" where
  "getSheetByName ss n = findIndex (\<lambda>sh. sname sh = n) ss"

definition insertSheet :: "spreadsheet \<Rightarrow> string \<Rightarrow> exn + spreadsheet" where
  "insertSheet ss n =
     (if list_ex (\<lambda>sh. toLowerCase (sname sh) = toLowerCase n) ss
      then Inl (Exn (''Exception: A sheet with the name \"'' @ n @ ''\" already exists. Please enter another name.''))
      else Inr (ss @ [\<lparr>sname = n, grid = []\<rparr>]))"

text \<open>\<open>firstSome f xs\<close> is the result of a loop over \<open>xs\<close> that returns at the first hit.\<close>

fun firstSome :: "('a \<Rightarrow> 'b option) \<Rightarrow> 'a list \<Rightarrow> 'b option" where
  "firstSome f [] = None"
| "firstSome f (x # xs) = (case f x of Some y \<Rightarrow> Some y | None \<Rightarrow> firstSome f xs)"

section \<open>Requests and responses\<close>

text \<open>
  The event of a request carries the parameter \<open>method\<close> and the post data. The post data
  stands for what \<open>JSON.parse\<close> makes of its contents: the exception it throws, or the parsed
  object with the fields the handlers read (a missing field is \<open>None\<close>). A response is the
  text output of the preflight answer or a JSON object, the list of its keys and values.
\<close>

record payload =
  url :: "jsval option"
  title :: "jsval option"
  timestamp :: "jsval option"
  userEmail :: "jsval option"
  userId :: "jsval option"
  pin :: "jsval option"

datatype body = Unparsable exn | Payload payload

record event =
  parameterMethod :: "string option"
  postData :: "body option"

datatype response = TextOutput string | JsonOutput "(string \<times> jsval) list"

definition isPreflight :: "event \<Rightarrow> bool" where
  "isPreflight e = (parameterMethod e = Some ''OPTIONS'' \<or> postData e = None)"

section \<open>PIN validation script (gsheet_gappscriptcode_pin_list.js)\<close>

definition PREFERRED_PIN_SHEET_NAME :: string where
  "PREFERRED_PIN_SHEET_NAME = ''PINs''"

definition possibleNames_pl :: "string list" where
  "possibleNames_pl = [''PINs'', ''PIN'', ''Pins'', ''Pin'', ''Sheet1'', ''pins'', ''pin'',
     ''Password'', ''Passwords'', ''password'', ''passwords'', ''Access Codes'',
     ''AccessCodes'', ''access_codes'', ''access codes'', ''Codes'', ''codes'', ''Auth'',
     ''auth'', ''Authentication'', ''Key'', ''Keys'', ''keys'']"

text \<open>
  The text of a header row: the first \<open>n\<close> cells of row \<open>r\<close>, joined with a bar, in lower
  case.
\<close>

definition headerText :: "host \<Rightarrow> sheet \<Rightarrow> nat \<Rightarrow> nat \<Rightarrow> string" where
  "headerText P sh r n = toLowerCase (joinWith ''|'' (map (toStringJs P) (getRowValues sh r 1 n)))"

text \<open>
  The shapes of a PIN: \<open>^\d{3,8}$\<close>, \<open>^[A-Za-z0-9]{4,12}$\<close>, \<open>^\d{4}-\d{4}$\<close> and
  \<open>^[A-Z]{2,4}\d{2,6}$\<close>.
\<close>

definition pinLikePattern :: "string \<Rightarrow> bool" where
  "pinLikePattern s =
     ((3 \<le> length s \<and> length s \<le> 8 \<and> list_all isDigit s)
      \<or> (4 \<le> length s \<and> length s \<le> 12 \<and> list_all isAlnum s)
      \<or> matchMask ''dddd-dddd'' s
      \<or> (let ls = takeWhile isUpperAZ s; ds = dropWhile isUpperAZ s
          in 2 \<le> length ls \<and> length ls \<le> 4 \<and> 2 \<le> length ds \<and> length ds \<le> 6
             \<and> list_all isDigit ds))"

text \<open>
  One attempt of the data check of \<open>isPinSheet\<close>, from row \<open>startAttempt\<close>: at least six in
  ten of the values with content, among up to ten of column A, have the shape of a PIN.
\<close>

definition pinLikeData_pl :: "host \<Rightarrow> sheet \<Rightarrow> nat \<Rightarrow> bool" where
  "pinLikeData_pl P sh startAttempt =
     (let maxDataRowsToCheck = min 10 (getLastRow sh);
          data = getColumnValues sh startAttempt 1
                   (min maxDataRowsToCheck (getLastRow sh - startAttempt + 1));
          valid = filter (\<lambda>v. truthy v \<and> trim (toStringJs P v) \<noteq> []) data;
          validDataCount = length valid;
          pinLikeCount = length (filter (\<lambda>v. pinLikePattern (trim (toStringJs P v))) valid)
      in validDataCount > 0 \<and> 10 * pinLikeCount \<ge> 6 * validDataCount)"

definition isPinSheet_pl :: "host \<Rightarrow> sheet \<Rightarrow> bool" where
  "isPinSheet_pl P sh =
     (if getLastRow sh < 1 then False
      else if list_ex (\<lambda>row. getLastColumn sh \<ge> 1 \<and>
                (let t = headerText P sh row (min (getLastColumn sh) 3)
                 in includesStr t ''pin'' \<or> includesStr t ''password'' \<or> includesStr t ''code''
                    \<or> includesStr t ''auth'' \<or> includesStr t ''key'' \<or> includesStr t ''access''))
              [1..<Suc (min 3 (getLastRow sh))]
      then True
      else list_ex (pinLikeData_pl P sh) [1..<Suc (min 2 (getLastRow sh))])"

text \<open>
  The three passes of \<open>findPinSheet\<close>: the candidate names in their order, by exact name;
  the sheets in their order, by name without regard to case; the sheets in their order, by
  content alone. Each pass accepts a sheet only if it looks like a PIN sheet.
\<close>

definition findSheetByNames :: "(sheet \<Rightarrow> bool) \<Rightarrow> string list \<Rightarrow> spreadsheet \<Rightarrow> nat option" where
  "findSheetByNames ok names ss =
     (case firstSome (\<lambda>n. case getSheetByName ss n of
                            Some i \<Rightarrow> if ok (ss ! i) then Some i else None
                          | None \<Rightarrow> None) names of
        Some i \<Rightarrow> Some i
      | None \<Rightarrow>
         (case findIndex (\<lambda>sh. list_ex (\<lambda>n. toLowerCase (sname sh) = toLowerCase n) names
                               \<and> ok sh) ss of
            Some i \<Rightarrow> Some i
          | None \<Rightarrow> findIndex ok ss))"

definition findPinSheet_pl :: "host \<Rightarrow> spreadsheet \<Rightarrow> nat option" where
  "findPinSheet_pl P ss = findSheetByNames (isPinSheet_pl P) possibleNames_pl ss"

text \<open>The sheet that \<open>getOrCreatePinSheet\<close> sets up when it finds none.\<close>

definition examplePinSheet :: sheet where
  "examplePinSheet =
     setValue (setValue (setValue (setValue \<lparr>sname = PREFERRED_PIN_SHEET_NAME, grid = []\<rparr>
       1 1 (JStr ''PIN'')) 2 1 (JStr ''123456'')) 3 1 (JStr ''789012'')) 4 1 (JStr ''000000'')"

text \<open>
  \<open>getOrCreatePinSheet\<close> returns the position of the PIN sheet, if there is one in the end,
  and the spreadsheet as it leaves it.
\<close>

definition getOrCreatePinSheet :: "host \<Rightarrow> spreadsheet \<Rightarrow> nat option \<times> spreadsheet" where
  "getOrCreatePinSheet P ss =
     (case findPinSheet_pl P ss of
        Some i \<Rightarrow> (Some i, ss)
      | None \<Rightarrow>
         (case insertSheet ss PREFERRED_PIN_SHEET_NAME of
            Inl e \<Rightarrow> (None, ss)
          | Inr ss1 \<Rightarrow> (Some (length ss), ss1[length ss := examplePinSheet])))"

record pinStructure =
  startRow :: nat
  endRow :: nat
  dataColumn :: nat
  hasHeader :: bool

definition analyzePinSheetStructure :: "sheet \<Rightarrow> pinStructure" where
  "analyzePinSheetStructure sh =
     (let result = \<lparr>startRow = 1, endRow = getLastRow sh, dataColumn = 1, hasHeader = False\<rparr>
      in if getLastRow sh < 1 then result
         else let result1 =
                (case cellAt sh 1 1 of
                   JStr firstRowValue \<Rightarrow>
                     (let t = trim (toLowerCase firstRowValue)
                      in if firstRowValue \<noteq> [] \<and>
                            (t = ''pin'' \<or> t = ''pins'' \<or> t = ''password'' \<or> t = ''code''
                             \<or> t = ''auth'' \<or> t = ''key'' \<or> includesStr t ''pin''
                             \<or> includesStr t ''code'')
                         then result\<lparr>hasHeader := True, startRow := 2\<rparr>
                         else result)
                 | _ \<Rightarrow> result)
              in if startRow result1 > getLastRow sh
                 then result1\<lparr>startRow := 1, hasHeader := False\<rparr>
                 else result1)"

text \<open>
  The comparison loop of \<open>validatePinFromSheet\<close> over the display values of the data range:
  an empty value is passed over, any other is trimmed and accepted when it equals the
  trimmed candidate exactly or after both are put in upper case.
\<close>

fun validatePinFromSheet_loop :: "string \<Rightarrow> string list \<Rightarrow> bool" where
  "validatePinFromSheet_loop inputPin [] = False"
| "validatePinFromSheet_loop inputPin (storedPin # rest) =
     (if storedPin \<noteq> []
      then (if trim storedPin = inputPin then True
            else if toUpperCase (trim storedPin) = toUpperCase inputPin then True
            else validatePinFromSheet_loop inputPin rest)
      else validatePinFromSheet_loop inputPin rest)"

record validation =
  isValid :: bool
  message :: string

text \<open>The PIN list that \<open>validatePinFromSheet\<close> reads from the sheet it has settled on.\<close>

definition pinList_pl :: "host \<Rightarrow> sheet \<Rightarrow> string list" where
  "pinList_pl P sh =
     (let structure = analyzePinSheetStructure sh
      in getColumnDisplayValues P sh (startRow structure) (dataColumn structure)
           (endRow structure - startRow structure + 1))"

definition validatePinFromSheet :: "host \<Rightarrow> store \<Rightarrow> jsval \<Rightarrow> validation \<times> store" where
  "validatePinFromSheet P st p =
     (case st of
        Inl e \<Rightarrow>
          (\<lparr>isValid = False, message = ''Error validating PIN: '' @ exnToString e\<rparr>, st)
      | Inr ss \<Rightarrow>
          (case getOrCreatePinSheet P ss of
             (None, ss1) \<Rightarrow>
               (\<lparr>isValid = False, message = ''PIN validation sheet not available.''\<rparr>, Inr ss1)
           | (Some i, ss1) \<Rightarrow>
               (let sh = ss1 ! i; structure = analyzePinSheetStructure sh
                in if endRow structure < startRow structure
                   then (\<lparr>isValid = False, message = ''No PIN data available.''\<rparr>, Inr ss1)
                   else if validatePinFromSheet_loop (trim (toStringJs P p)) (pinList_pl P sh)
                   then (\<lparr>isValid = True, message = ''PIN validated successfully.''\<rparr>, Inr ss1)
                   else (\<lparr>isValid = False,
                          message = ''Invalid PIN. Please check your PIN and try again.''\<rparr>,
                         Inr ss1))))"

definition handleCors_pl :: response where
  "handleCors_pl = TextOutput ''CORS handled''"

text \<open>
  \<open>doPost\<close> of the PIN validation script. Its body throws when the post data cannot be
  parsed; the handler catches that and answers with an error object.
\<close>

definition doPost_pl_body :: "host \<Rightarrow> store \<Rightarrow> event \<Rightarrow> exn + response \<times> store" where
  "doPost_pl_body P st e =
     (if isPreflight e then Inr (handleCors_pl, st)
      else case postData e of
        None \<Rightarrow> Inr (handleCors_pl, st)
      | Some (Unparsable err) \<Rightarrow> Inl err
      | Some (Payload d) \<Rightarrow>
          (let p = orDefault (pin d) (JStr []);
               (validationResult, st1) = validatePinFromSheet P st p
           in Inr (JsonOutput
                [(''status'', JStr (if isValid validationResult then ''success'' else ''error'')),
                 (''message'', JStr (message validationResult)),
                 (''pin'', p),
                 (''timestamp'', JStr (toISOString P (clock P)))], st1)))"

definition doPost_pl :: "host \<Rightarrow> store \<Rightarrow> event \<Rightarrow> response \<times> store" where
  "doPost_pl P st e =
     (case doPost_pl_body P st e of
        Inr r \<Rightarrow> r
      | Inl error \<Rightarrow>
          (JsonOutput
             [(''status'', JStr ''error''),
              (''message'', JStr (''Internal server error: '' @ exnToString error)),
              (''timestamp'', JStr (toISOString P (clock P)))], st))"

section \<open>Access request script (gsheet_gappscriptcode_access_requests.js)\<close>

definition PREFERRED_ACCESS_SHEET_NAME :: string where
  "PREFERRED_ACCESS_SHEET_NAME = ''AccessRequests''"

definition expectedHeaders :: "string list" where
  "expectedHeaders = [''Timestamp'', ''PIN Number'', ''User Email'', ''Title'', ''URL'',
     ''Request Status'', ''Media Type'', ''Access Link'']"

definition possibleNames_access :: "string list" where
  "possibleNames_access = [''AccessRequests'', ''Access Requests'', ''Access'', ''Requests'',
     ''Sheet1'', ''access'', ''requests'', ''accessrequests'', ''access_requests'',
     ''URL Requests'', ''url_requests'', ''urlrequests'', ''Logs'', ''logs'', ''Activity'']"

text \<open>
  \<open>findAccessRequestSheet\<close>: a candidate name, by exact name; else a sheet whose name is a
  candidate name without regard to case; else a sheet whose first row of at least three
  columns mentions a timestamp and a URL, an e-mail or a PIN.
\<close>

definition hasAccessHeaders :: "host \<Rightarrow> sheet \<Rightarrow> bool" where
  "hasAccessHeaders P sh =
     (getLastRow sh \<ge> 1 \<and> getLastColumn sh \<ge> 3 \<and>
      (let t = headerText P sh 1 (min (getLastColumn sh) 8)
       in includesStr t ''timestamp'' \<and>
          (includesStr t ''url'' \<or> includesStr t ''email'' \<or> includesStr t ''pin'')))"

definition findAccessRequestSheet :: "host \<Rightarrow> spreadsheet \<Rightarrow> nat option" where
  "findAccessRequestSheet P ss =
     (case firstSome (getSheetByName ss) possibleNames_access of
        Some i \<Rightarrow> Some i
      | None \<Rightarrow>
         (case findIndex (\<lambda>sh. list_ex (\<lambda>n. toLowerCase (sname sh) = toLowerCase n)
                                  possibleNames_access) ss of
            Some i \<Rightarrow> Some i
          | None \<Rightarrow> findIndex (hasAccessHeaders P) ss))"

text \<open>
  \<open>getOrCreateAccessRequestSheet\<close> gives the position of the sheet and the spreadsheet as it
  leaves it; a new sheet gets the expected headers at once. It throws when the host refuses
  to insert the sheet.
\<close>

definition getOrCreateAccessRequestSheet ::
  "host \<Rightarrow> spreadsheet \<Rightarrow> exn + nat \<times> spreadsheet" where
  "getOrCreateAccessRequestSheet P ss =
     (case findAccessRequestSheet P ss of
        Some i \<Rightarrow> Inr (i, ss)
      | None \<Rightarrow>
         (case insertSheet ss PREFERRED_ACCESS_SHEET_NAME of
            Inl e \<Rightarrow> Inl e
          | Inr ss1 \<Rightarrow>
              Inr (length ss,
                   ss1[length ss := setRowValues (ss1 ! length ss) 1 1 (map JStr expectedHeaders)])))"

text \<open>
  \<open>autoFixTimestampFormats\<close>: every value of column A from row 2 to the last row goes
  through \<open>detectAndFixTimestamp\<close>; if one of them comes out different, the whole column
  range is written back.
\<close>

definition autoFixTimestampFormats :: "host \<Rightarrow> sheet \<Rightarrow> sheet" where
  "autoFixTimestampFormats P sh =
     (let lastRow = getLastRow sh
      in if lastRow \<le> 1 then sh
         else let timestampValues = getColumnValues sh 2 1 (lastRow - 1);
                  needsUpdate = list_ex (\<lambda>currentValue.
                    JStr (detectAndFixTimestamp P currentValue) \<noteq> currentValue) timestampValues;
                  fixedValues = map (\<lambda>currentValue.
                    if JStr (detectAndFixTimestamp P currentValue) \<noteq> currentValue
                    then JStr (detectAndFixTimestamp P currentValue) else currentValue)
                    timestampValues
              in if needsUpdate then setColumnValues sh 2 1 fixedValues else sh)"

record requestData =
  rd_url :: jsval
  rd_title :: jsval
  rd_timestamp :: jsval
  rd_userEmail :: jsval
  rd_pin :: jsval
  rd_isPinValid :: bool

record logResult =
  success :: bool
  lr_message :: string

text \<open>The header check of \<open>logAccessRequest\<close> and the repair of row 1.\<close>

definition currentHeaders :: "sheet \<Rightarrow> jsval list" where
  "currentHeaders sh =
     (if getLastRow sh \<ge> 1 \<and> getLastColumn sh > 0
      then getRowValues sh 1 1 (min (getLastColumn sh) 8) else [])"

definition headersNeedUpdate :: "sheet \<Rightarrow> bool" where
  "headersNeedUpdate sh =
     (currentHeaders sh \<noteq> map JStr expectedHeaders \<or> getLastColumn sh > 8)"

definition repairHeaders :: "sheet \<Rightarrow> sheet" where
  "repairHeaders sh =
     (let lastCol = getLastColumn sh;
          sh1 = (if lastCol > 8 then clearContent sh 1 9 (getMaxRows sh) (lastCol - 8) else sh);
          sh2 = (if getLastColumn sh1 > 0
                 then clearContent sh1 1 1 1 (max (getLastColumn sh1) 8) else sh1)
      in setRowValues sh2 1 1 (map JStr expectedHeaders))"

text \<open>The row that \<open>logAccessRequest\<close> appends.\<close>

definition rowData :: "host \<Rightarrow> requestData \<Rightarrow> jsval list" where
  "rowData P rd =
     [if truthy (rd_timestamp rd) then rd_timestamp rd else JStr (createReadableTimestamp P),
      if truthy (rd_pin rd) then rd_pin rd else JStr ''NO PIN'',
      rd_userEmail rd, rd_title rd, rd_url rd,
      JStr ''PENDING'', JStr ''PENDING'', JStr ''PENDING'']"

definition logAccessRequest_sheet :: "host \<Rightarrow> sheet \<Rightarrow> requestData \<Rightarrow> sheet" where
  "logAccessRequest_sheet P sh rd =
     (let sh1 = (if headersNeedUpdate sh then repairHeaders sh else sh);
          sh2 = appendRow sh1 (rowData P rd)
      in autoFixTimestampFormats P sh2)"

definition logAccessRequest :: "host \<Rightarrow> store \<Rightarrow> requestData \<Rightarrow> logResult \<times> store" where
  "logAccessRequest P st rd =
     (case st of
        Inl error \<Rightarrow>
          (\<lparr>success = False,
            lr_message = ''Error logging access request: '' @ exnToString error\<rparr>, st)
      | Inr ss \<Rightarrow>
          (case getOrCreateAccessRequestSheet P ss of
             Inl error \<Rightarrow>
               (\<lparr>success = False,
                 lr_message = ''Error logging access request: '' @ exnToString error\<rparr>, st)
           | Inr (i, ss1) \<Rightarrow>
               (\<lparr>success = True, lr_message = ''Access request logged successfully.''\<rparr>,
                Inr (ss1[i := logAccessRequest_sheet P (ss1 ! i) rd]))))"

subsection \<open>PIN validation of the access request script\<close>

definition possibleNames_ar :: "string list" where
  "possibleNames_ar = [''PINs'', ''PIN'', ''Pins'', ''Pin'', ''Sheet1'', ''pins'', ''pin'',
     ''Password'', ''Passwords'', ''password'', ''passwords'', ''Access Codes'',
     ''AccessCodes'', ''access_codes'', ''Codes'', ''codes'', ''Auth'', ''auth'',
     ''Authentication'']"

text \<open>
  The data check of this script's \<open>isPinSheet\<close>: a number from 1000 to 999999, or a text
  that after trimming is \<open>^\d{4,6}$\<close> or has three characters or more.
\<close>

fun pinLikeValue_ar :: "jsval \<Rightarrow> bool" where
  "pinLikeValue_ar (JNum n) = (n \<noteq> 0 \<and> 1000 \<le> n \<and> n \<le> 999999)"
| "pinLikeValue_ar (JStr s) =
     (s \<noteq> [] \<and> ((4 \<le> length (trim s) \<and> length (trim s) \<le> 6 \<and> list_all isDigit (trim s))
                \<or> length (trim s) \<ge> 3))"
| "pinLikeValue_ar _ = False"

definition isPinSheet_ar :: "host \<Rightarrow> sheet \<Rightarrow> bool" where
  "isPinSheet_ar P sh =
     (if getLastRow sh < 1 then False
      else if getLastColumn sh \<ge> 1 \<and>
              (let t = headerText P sh 1 (min (getLastColumn sh) 3)
               in includesStr t ''pin'' \<or> includesStr t ''password'' \<or> includesStr t ''code''
                  \<or> includesStr t ''auth'')
      then True
      else if getLastRow sh \<ge> 2 \<and>
              (let data = getColumnValues sh (min 2 (getLastRow sh)) 1
                            (min 10 (getLastRow sh - 1))
               in 2 * length (filter pinLikeValue_ar data) \<ge> length data)
      then True
      else truthy (cellAt sh 1 1))"

definition findPinSheet_ar :: "host \<Rightarrow> spreadsheet \<Rightarrow> nat option" where
  "findPinSheet_ar P ss = findSheetByNames (isPinSheet_ar P) possibleNames_ar ss"

text \<open>Row 1 is taken for a header when its first cell is a text that mentions a PIN.\<close>

definition startRow_ar :: "sheet \<Rightarrow> nat" where
  "startRow_ar sh =
     (case cellAt sh 1 1 of
        JStr firstRowValue \<Rightarrow>
          (let t = toLowerCase firstRowValue
           in if firstRowValue \<noteq> [] \<and>
                 (includesStr t ''pin'' \<or> includesStr t ''password'' \<or> includesStr t ''code''
                  \<or> includesStr t ''auth'' \<or> t = ''pin'' \<or> t = ''pins'')
              then 2 else 1)
      | _ \<Rightarrow> 1)"

text \<open>
  The comparison loop of \<open>validatePin\<close>: an empty display value is passed over, any other
  is trimmed and accepted when it equals the trimmed candidate.
\<close>

fun validatePin_loop :: "string \<Rightarrow> string list \<Rightarrow> bool" where
  "validatePin_loop inputPin [] = False"
| "validatePin_loop inputPin (storedPin # rest) =
     (if storedPin \<noteq> [] \<and> trim storedPin = inputPin then True
      else validatePin_loop inputPin rest)"

definition pinList_ar :: "host \<Rightarrow> sheet \<Rightarrow> string list" where
  "pinList_ar P sh =
     getColumnDisplayValues P sh (startRow_ar sh) 1 (getLastRow sh - startRow_ar sh + 1)"

definition validatePin :: "host \<Rightarrow> store \<Rightarrow> jsval \<Rightarrow> bool" where
  "validatePin P st p =
     (if \<not> truthy p then False
      else case st of
        Inl error \<Rightarrow> False
      | Inr pinSpreadsheet \<Rightarrow>
          (case findPinSheet_ar P pinSpreadsheet of
             None \<Rightarrow> False
           | Some i \<Rightarrow>
               (let pinSheet = pinSpreadsheet ! i
                in if getLastRow pinSheet < 1 then False
                   else if getLastRow pinSheet < startRow_ar pinSheet then False
                   else validatePin_loop (trim (toStringJs P p)) (pinList_ar P pinSheet))))"

subsection \<open>The handler of the access request script\<close>

definition doPost_ar_body :: "host \<Rightarrow> store \<Rightarrow> store \<Rightarrow> event \<Rightarrow> exn + response \<times> store" where
  "doPost_ar_body P pinStore st e =
     (if isPreflight e then Inr (handleCors_pl, st)
      else case postData e of
        None \<Rightarrow> Inr (handleCors_pl, st)
      | Some (Unparsable err) \<Rightarrow> Inl err
      | Some (Payload d) \<Rightarrow>
          (let u = orDefault (url d) (JStr []);
               t = orDefault (title d) (JStr []);
               ts = orDefault (timestamp d) (JStr (createReadableTimestamp P));
               em = orDefault (userEmail d) (JStr []);
               p = orDefault (pin d) (JStr []);
               isPinValid = (if truthy p then validatePin P pinStore p else False);
               (logResult, st1) = logAccessRequest P st
                  \<lparr>rd_url = u, rd_title = t, rd_timestamp = ts, rd_userEmail = em, rd_pin = p,
                   rd_isPinValid = isPinValid\<rparr>
           in Inr (JsonOutput
                [(''status'', JStr (if success logResult then ''success'' else ''error'')),
                 (''message'', JStr (lr_message logResult)),
                 (''pinValid'', JBool isPinValid),
                 (''pinProvided'', JBool (truthy p)),
                 (''timestamp'', JStr (createReadableTimestamp P))], st1)))"

definition doPost_ar :: "host \<Rightarrow> store \<Rightarrow> store \<Rightarrow> event \<Rightarrow> response \<times> store" where
  "doPost_ar P pinStore st e =
     (case doPost_ar_body P pinStore st e of
        Inr r \<Rightarrow> r
      | Inl error \<Rightarrow>
          (JsonOutput
             [(''status'', JStr ''error''),
              (''message'', JStr (''Internal server error: '' @ exnToString error)),
              (''timestamp'', JStr (createReadableTimestamp P))], st))"

section \<open>URL logging handlers (unnamed part 000, and the second handler of the access request file)\<close>

definition handleCors :: response where
  "handleCors = TextOutput []"

text \<open>
  The PIN check written out in the handlers: the display values of column A of the named
  sheet from row 2, each trimmed and compared with the trimmed candidate. An exception while
  the PIN store is opened is caught on the spot and leaves the PIN invalid.
\<close>

fun inlinePinLoop :: "string \<Rightarrow> string list \<Rightarrow> bool" where
  "inlinePinLoop inputPin [] = False"
| "inlinePinLoop inputPin (cell # rest) =
     (let storedPin = trim cell
      in if storedPin \<noteq> [] \<and> storedPin = inputPin then True
         else inlinePinLoop inputPin rest)"

definition inlinePinList :: "host \<Rightarrow> sheet \<Rightarrow> string list" where
  "inlinePinList P pinSheet =
     (if getLastRow pinSheet > 1
      then getColumnDisplayValues P pinSheet 2 1 (getLastRow pinSheet - 1) else [])"

definition inlinePinCheck :: "host \<Rightarrow> store \<Rightarrow> string \<Rightarrow> jsval \<Rightarrow> bool" where
  "inlinePinCheck P pinStore sheetName p =
     (case pinStore of
        Inl pinError \<Rightarrow> False
      | Inr pinSpreadsheet \<Rightarrow>
          (case getSheetByName pinSpreadsheet sheetName of
             None \<Rightarrow> False
           | Some i \<Rightarrow>
               inlinePinLoop (trim (toStringJs P p)) (inlinePinList P (pinSpreadsheet ! i))))"

definition cooldownMs :: int where
  "cooldownMs = 5 * 60 * 1000"

text \<open>\<open>currentTime - rowTime > cooldownMs\<close>; with an invalid current time it is false.\<close>

definition tooOld :: "int option \<Rightarrow> int \<Rightarrow> bool" where
  "tooOld currentTime rowTime =
     (case currentTime of None \<Rightarrow> False | Some c \<Rightarrow> c - rowTime > cooldownMs)"

text \<open>
  The duplicate scan, over the rows from the most recent one. Of each row it takes the first
  cell as the URL and the second cell as the time. A row with no time or an unreadable time
  is passed over; the first row that is too old ends the scan.
\<close>

fun duplicateScan :: "host \<Rightarrow> jsval \<Rightarrow> int option \<Rightarrow> jsval list list \<Rightarrow> bool" where
  "duplicateScan P u currentTime [] = False"
| "duplicateScan P u currentTime (row # older) =
     (let rowUrl = row ! 0; rowTimeStr = row ! 1
      in if \<not> truthy rowTimeStr then duplicateScan P u currentTime older
         else case newDate P rowTimeStr of
                None \<Rightarrow> duplicateScan P u currentTime older
              | Some rowTime \<Rightarrow>
                  if tooOld currentTime rowTime then False
                  else if strictEq rowUrl u then True
                  else duplicateScan P u currentTime older)"

definition lastRows :: "sheet \<Rightarrow> jsval list list" where
  "lastRows sh = (if getLastRow sh > 1 then getValues sh 2 1 (getLastRow sh - 1) 5 else [])"

definition isDuplicate :: "host \<Rightarrow> sheet \<Rightarrow> bool \<Rightarrow> jsval \<Rightarrow> int option \<Rightarrow> bool" where
  "isDuplicate P sh isValidPin u currentTime =
     (if isValidPin then duplicateScan P u currentTime (rev (lastRows sh)) else False)"

definition failureBody :: "(string \<times> jsval) list" where
  "failureBody = [(''status'', JStr ''failure''), (''message'', JStr ''Invalid PIN/Password'')]"

definition duplicateBody :: "string \<Rightarrow> (string \<times> jsval) list" where
  "duplicateBody m = [(''status'', JStr ''duplicate''), (''message'', JStr m)]"

definition successBody :: "(string \<times> jsval) list" where
  "successBody = [(''status'', JStr ''success'')]"

definition errorBody :: "string \<Rightarrow> (string \<times> jsval) list" where
  "errorBody m = [(''status'', JStr ''error''), (''message'', JStr m)]"

definition respond :: "bool \<Rightarrow> bool \<Rightarrow> string \<Rightarrow> response" where
  "respond isValidPin dup m =
     (if \<not> isValidPin then JsonOutput failureBody
      else if dup then JsonOutput (duplicateBody m)
      else JsonOutput successBody)"

text \<open>
  The fields both handlers read from the parsed object, with their defaults, and the time of
  the request when the object carries none.
\<close>

definition urlOf :: "payload \<Rightarrow> jsval" where
  "urlOf d = orDefault (url d) (JStr ''N/A'')"

definition titleOf :: "payload \<Rightarrow> jsval" where
  "titleOf d = orDefault (title d) (JStr ''Untitled Page'')"

definition timestampOf :: "host \<Rightarrow> payload \<Rightarrow> jsval" where
  "timestampOf P d = orDefault (timestamp d) (JStr (toISOString P (clock P)))"

definition userEmailOf :: "payload \<Rightarrow> jsval" where
  "userEmailOf d = orDefault (userEmail d) (JStr ''Unknown'')"

definition userIdOf :: "payload \<Rightarrow> jsval" where
  "userIdOf d = orDefault (userId d) (JStr ''Unknown'')"

definition pinOf :: "payload \<Rightarrow> jsval" where
  "pinOf d = orDefault (pin d) (JStr ''Not Provided'')"

text \<open>The handler of unnamed part 000.\<close>

definition status_p0 :: "bool \<Rightarrow> bool \<Rightarrow> string" where
  "status_p0 isValidPin dup =
     (if isValidPin then (if dup then ''Duplicate (Valid PIN)'' else ''Success (Valid PIN)'')
      else ''Failed (Invalid PIN)'')"

definition row_p0 :: "host \<Rightarrow> payload \<Rightarrow> string \<Rightarrow> jsval list" where
  "row_p0 P d status =
     [urlOf d, titleOf d, timestampOf P d, userEmailOf d, userIdOf d, pinOf d, JStr status]"

definition doPost_p0_body :: "host \<Rightarrow> store \<Rightarrow> store \<Rightarrow> event \<Rightarrow> exn + response \<times> store" where
  "doPost_p0_body P pinStore st e =
     (if isPreflight e then Inr (handleCors, st)
      else case postData e of
        None \<Rightarrow> Inr (handleCors, st)
      | Some (Unparsable err) \<Rightarrow> Inl err
      | Some (Payload d) \<Rightarrow>
          (case st of
             Inl err \<Rightarrow> Inl err
           | Inr spreadsheet \<Rightarrow>
              (case getSheetByName spreadsheet ''Sheet1'' of
                 None \<Rightarrow> Inl (Exn ''Error: Sheet named \"Sheet1\" not found.'')
               | Some i \<Rightarrow>
                  (let sh = spreadsheet ! i;
                       isValidPin = inlinePinCheck P pinStore ''PINs'' (pinOf d);
                       dup = isDuplicate P sh isValidPin (urlOf d) (newDate P (timestampOf P d));
                       sh1 = appendRow sh (row_p0 P d (status_p0 isValidPin dup))
                   in Inr (respond isValidPin dup
                             ''URL already requested within last 5 minutes.'',
                           Inr (spreadsheet[i := sh1]))))))"

definition doPost_p0 :: "host \<Rightarrow> store \<Rightarrow> store \<Rightarrow> event \<Rightarrow> response \<times> store" where
  "doPost_p0 P pinStore st e =
     (case doPost_p0_body P pinStore st e of
        Inr r \<Rightarrow> r
      | Inl error \<Rightarrow> (JsonOutput (errorBody (exnToString error)), st))"

text \<open>
  The second handler of the access request file. It formats the time for Pacific time before
  it opens the log, keeps six columns with headers of its own, and puts a header row on top
  when the first row does not hold them.
\<close>

definition expectedHeaders_v2 :: "string list" where
  "expectedHeaders_v2 = [''timeStamp'', ''userEmail'', ''websiteTitle'', ''websiteRequested'',
     ''pinNumber'', ''pinStatus'']"

definition headersMatch_v2 :: "host \<Rightarrow> sheet \<Rightarrow> bool" where
  "headersMatch_v2 P sh =
     (map (\<lambda>v. toLowerCase (trim (toStringJs P v))) (getRowValues sh 1 1 6)
        = map toLowerCase expectedHeaders_v2)"

definition ensureHeaders_v2 :: "host \<Rightarrow> sheet \<Rightarrow> sheet" where
  "ensureHeaders_v2 P sh =
     (if \<not> headersMatch_v2 P sh
      then setRowValues (insertRowBefore1 sh) 1 1 (map JStr expectedHeaders_v2)
      else sh)"

definition status_v2 :: "bool \<Rightarrow> bool \<Rightarrow> string" where
  "status_v2 isValidPin dup =
     (if isValidPin then (if dup then ''Valid PIN'' else ''Valid PIN'') else ''Invalid PIN'')"

definition row_v2 :: "string \<Rightarrow> payload \<Rightarrow> string \<Rightarrow> jsval list" where
  "row_v2 ts d status = [JStr ts, userEmailOf d, titleOf d, urlOf d, pinOf d, JStr status]"

definition doPost_v2_body :: "host \<Rightarrow> store \<Rightarrow> store \<Rightarrow> event \<Rightarrow> exn + response \<times> store" where
  "doPost_v2_body P pinStore st e =
     (if isPreflight e then Inr (handleCors, st)
      else case postData e of
        None \<Rightarrow> Inr (handleCors, st)
      | Some (Unparsable err) \<Rightarrow> Inl err
      | Some (Payload d) \<Rightarrow>
          (let timestampDate = newDate P (timestampOf P d)
           in case formatLA P timestampDate of
                Inl err \<Rightarrow> Inl err
              | Inr ts \<Rightarrow>
                 (case st of
                    Inl err \<Rightarrow> Inl err
                  | Inr spreadsheet \<Rightarrow>
                     (case getSheetByName spreadsheet ''Sheet1'' of
                        None \<Rightarrow> Inl (Exn ''Error: Sheet named \"Sheet1\" not found.'')
                      | Some i \<Rightarrow>
                         (let sh = ensureHeaders_v2 P (spreadsheet ! i);
                              isValidPin = inlinePinCheck P pinStore ''Sheet1'' (pinOf d);
                              dup = isDuplicate P sh isValidPin (urlOf d) timestampDate;
                              sh1 = appendRow sh (row_v2 ts d (status_v2 isValidPin dup))
                          in Inr (respond isValidPin dup
                                    ''URL already requested within last 1 minute.'',
                                  Inr (spreadsheet[i := sh1])))))))"

definition doPost_v2 :: "host \<Rightarrow> store \<Rightarrow> store \<Rightarrow> event \<Rightarrow> response \<times> store" where
  "doPost_v2 P pinStore st e =
     (case doPost_v2_body P pinStore st e of
        Inr r \<Rightarrow> r
      | Inl error \<Rightarrow> (JsonOutput (errorBody (exnToString error)), st))"

section \<open>PIN handler (unnamed part 001)\<close>

text \<open>
  This handler reads the values of column A of the sheet PINs from row 2 and compares their
  text; nothing in it catches an exception of the PIN store before the handler's own catch.
\<close>

definition doPost_p1_body :: "host \<Rightarrow> store \<Rightarrow> event \<Rightarrow> exn + response" where
  "doPost_p1_body P pinStore e =
     (if isPreflight e then Inr handleCors
      else case postData e of
        None \<Rightarrow> Inr handleCors
      | Some (Unparsable err) \<Rightarrow> Inl err
      | Some (Payload d) \<Rightarrow>
          (let p = orDefault (pin d) (JStr [])
           in case pinStore of
                Inl err \<Rightarrow> Inl err
              | Inr spreadsheet \<Rightarrow>
                 (case getSheetByName spreadsheet ''PINs'' of
                    None \<Rightarrow> Inl (Exn ''Error: Sheet named \"PINs\" not found.'')
                  | Some i \<Rightarrow>
                     (let sh = spreadsheet ! i;
                          pinList = (if getLastRow sh > 1
                                     then map (toStringJs P) (getColumnValues sh 2 1 (getLastRow sh - 1))
                                     else []);
                          valid = inlinePinLoop (trim (toStringJs P p)) pinList
                      in Inr (JsonOutput
                           [(''status'', JStr (if valid then ''success'' else ''failure'')),
                            (''message'',
                             JStr (if valid then ''PIN valid'' else ''Invalid PIN/Password''))])))))"

definition doPost_p1 :: "host \<Rightarrow> store \<Rightarrow> event \<Rightarrow> response" where
  "doPost_p1 P pinStore e =
     (case doPost_p1_body P pinStore e of
        Inr r \<Rightarrow> r
      | Inl error \<Rightarrow> JsonOutput (errorBody (exnToString error)))"

section \<open>Statements to compare the code with\<close>

text \<open>
  The duplicate scan in closed form: among the rows that have a readable time, taken from
  the most recent one up to the first that is too old, one has the URL.
\<close>

definition hasTime :: "host \<Rightarrow> jsval list \<Rightarrow> bool" where
  "hasTime P row = (truthy (row ! 1) \<and> newDate P (row ! 1) \<noteq> None)"

definition rowTooOld :: "host \<Rightarrow> int option \<Rightarrow> jsval list \<Rightarrow> bool" where
  "rowTooOld P currentTime row =
     (case newDate P (row ! 1) of None \<Rightarrow> False | Some rowTime \<Rightarrow> tooOld currentTime rowTime)"

definition scanFinds :: "host \<Rightarrow> jsval \<Rightarrow> int option \<Rightarrow> jsval list list \<Rightarrow> bool" where
  "scanFinds P u currentTime rows =
     list_ex (\<lambda>row. strictEq (row ! 0) u)
       (takeWhile (\<lambda>row. \<not> rowTooOld P currentTime row) (filter (hasTime P) rows))"

text \<open>
  C2 in the words of the specification: some prior row has the same URL, and its time is
  within five minutes of the time of the request. \<open>urlCol\<close> and \<open>timeCol\<close> say in which
  cells of a row (counted from 0) the URL and the time stand.
\<close>

definition withinCooldown :: "int option \<Rightarrow> int option \<Rightarrow> bool" where
  "withinCooldown currentTime rowTime =
     (case (currentTime, rowTime) of
        (Some c, Some t) \<Rightarrow> \<bar>c - t\<bar> \<le> cooldownMs
      | _ \<Rightarrow> False)"

definition claimedDuplicate ::
  "host \<Rightarrow> nat \<Rightarrow> nat \<Rightarrow> jsval list list \<Rightarrow> jsval \<Rightarrow> int option \<Rightarrow> bool" where
  "claimedDuplicate P urlCol timeCol rows u currentTime =
     list_ex (\<lambda>row. strictEq (row ! urlCol) u
                \<and> withinCooldown currentTime (newDate P (row ! timeCol))) rows"


text \<open>
  C4 in the words of the specification: the response is one of the four JSON objects, a
  success, a duplicate with a message, the failure for an invalid PIN, or an error with a
  message.
\<close>

definition isOneOfFour :: "response \<Rightarrow> bool" where
  "isOneOfFour r =
     (case r of
        TextOutput t \<Rightarrow> False
      | JsonOutput b \<Rightarrow>
          b = successBody \<or> b = failureBody \<or>
          (case b of
             [(k1, JStr s), (k2, JStr m)] \<Rightarrow>
               k1 = ''status'' \<and> k2 = ''message'' \<and> (s = ''duplicate'' \<or> s = ''error'')
           | _ \<Rightarrow> False))"

section \<open>A concrete host\<close>

text \<open>
  \<open>demoHost\<close> is one host, used to run the model on concrete inputs. Its script time zone is
  UTC and its clock stands at 2025-06-06T17:00:00Z. It is given by tables: its date parser
  reads four ISO 8601 timestamps, written with or without milliseconds, and no other string;
  its formatters know the same four dates (Pacific time being seven hours behind) and take
  every other time value for the epoch; it writes every number that takes an exponent as
  10 to the 21; and a string converts to a number when it is blank (to 0) or a plain decimal
  integer.
\<close>

definition digitVal :: "char \<Rightarrow> int" where
  "digitVal c =
     (case map_of (zip ''0123456789'' [0, 1, 2, 3, 4, 5, 6, 7, 8, 9]) c of
        Some d \<Rightarrow> d | None \<Rightarrow> 0)"

definition readNum :: "string \<Rightarrow> int" where
  "readNum s = foldl (\<lambda>a c. 10 * a + digitVal c) 0 s"

definition demoParseDate :: "string \<Rightarrow> int option" where
  "demoParseDate s = map_of
     [(''2025-06-06T16:50:00Z'', 1749228600000),
      (''2025-06-06T16:59:00Z'', 1749229140000),
      (''2025-06-06T17:00:00Z'', 1749229200000),
      (''2025-06-06T17:00:10Z'', 1749229210000),
      (''2025-06-06T16:50:00.000Z'', 1749228600000),
      (''2025-06-06T16:59:00.000Z'', 1749229140000),
      (''2025-06-06T17:00:00.000Z'', 1749229200000),
      (''2025-06-06T17:00:10.000Z'', 1749229210000)] s"

definition demoFormatReadable :: "int \<Rightarrow> string" where
  "demoFormatReadable t =
     (case map_of
        [(1749228600000, ''Friday, Jun 06, 2025 04:50 PM''),
         (1749229140000, ''Friday, Jun 06, 2025 04:59 PM''),
         (1749229200000, ''Friday, Jun 06, 2025 05:00 PM''),
         (1749229210000, ''Friday, Jun 06, 2025 05:00 PM'')] t of
        Some s \<Rightarrow> s | None \<Rightarrow> ''Thursday, Jan 01, 1970 12:00 AM'')"

definition demoToISOString :: "int \<Rightarrow> string" where
  "demoToISOString t =
     (case map_of
        [(1749228600000, ''2025-06-06T16:50:00.000Z''),
         (1749229140000, ''2025-06-06T16:59:00.000Z''),
         (1749229200000, ''2025-06-06T17:00:00.000Z''),
         (1749229210000, ''2025-06-06T17:00:10.000Z'')] t of
        Some s \<Rightarrow> s | None \<Rightarrow> ''1970-01-01T00:00:00.000Z'')"

definition demoDateToString :: "int \<Rightarrow> string" where
  "demoDateToString t =
     (case map_of
        [(1749228600000, ''Fri Jun 06 2025 16:50:00 GMT+0000 (Coordinated Universal Time)''),
         (1749229140000, ''Fri Jun 06 2025 16:59:00 GMT+0000 (Coordinated Universal Time)''),
         (1749229200000, ''Fri Jun 06 2025 17:00:00 GMT+0000 (Coordinated Universal Time)''),
         (1749229210000, ''Fri Jun 06 2025 17:00:10 GMT+0000 (Coordinated Universal Time)'')] t of
        Some s \<Rightarrow> s
      | None \<Rightarrow> ''Thu Jan 01 1970 00:00:00 GMT+0000 (Coordinated Universal Time)'')"

definition demoExponentForm :: "int \<Rightarrow> string" where
  "demoExponentForm n = (if n < 0 then ''-1e+21'' else ''1e+21'')"

definition demoFormatLA :: "int option \<Rightarrow> exn + string" where
  "demoFormatLA d =
     (case d of
        None \<Rightarrow> Inl (Exn ''Exception: Invalid argument: date'')
      | Some t \<Rightarrow>
          (case map_of
             [(1749228600000, ''06/06/2025 9:50:00 AM''),
              (1749229140000, ''06/06/2025 9:59:00 AM''),
              (1749229200000, ''06/06/2025 10:00:00 AM''),
              (1749229210000, ''06/06/2025 10:00:10 AM'')] t of
             Some s \<Rightarrow> Inr s | None \<Rightarrow> Inr ''12/31/1969 5:00:00 PM''))"

definition demoStrToNumber :: "string \<Rightarrow> int option" where
  "demoStrToNumber s =
     (let t = trim s in
      if t = [] then Some 0
      else if list_all isDigit t then Some (readNum t)
      else None)"

definition demoDisplay :: "jsval \<Rightarrow> string" where
  "demoDisplay v =
     (case v of
        JStr s \<Rightarrow> s
      | JNum n \<Rightarrow> showInt n
      | JBool b \<Rightarrow> (if b then ''TRUE'' else ''FALSE'')
      | JDate t \<Rightarrow> demoToISOString t)"

definition demoHost :: host where
  "demoHost = \<lparr> parseDate = demoParseDate, formatReadable = demoFormatReadable,
     formatLA = demoFormatLA, clock = 1749229200000, toISOString = demoToISOString,
     dateToString = demoDateToString, exponentForm = demoExponentForm,
     strToNumber = demoStrToNumber, display = demoDisplay \<rparr>"

section \<open>Concrete stores and requests\<close>

text \<open>
  A PIN spreadsheet holding the PINs 1234 and abc under a header, in a sheet PINs and in a
  sheet Sheet1; a PIN spreadsheet with one empty sheet; a log with the sheet Sheet1 and its
  header row; and the request for one URL, with a time and a PIN.
\<close>

definition demoPins :: spreadsheet where
  "demoPins =
     [\<lparr>sname = ''PINs'', grid = [[JStr ''PIN''], [JStr ''1234''], [JStr ''abc'']]\<rparr>,
      \<lparr>sname = ''Sheet1'', grid = [[JStr ''PIN''], [JStr ''1234''], [JStr ''abc'']]\<rparr>]"


definition demoLog :: spreadsheet where
  "demoLog =
     [\<lparr>sname = ''Sheet1'',
       grid = [[JStr ''URL'', JStr ''Title'', JStr ''Timestamp'', JStr ''Email'',
                JStr ''User ID'', JStr ''PIN'', JStr ''Status'']]\<rparr>]"

definition demoPayload :: "string \<Rightarrow> string \<Rightarrow> payload" where
  "demoPayload ts p =
     \<lparr>url = Some (JStr ''https://example.com''), title = Some (JStr ''Ex''),
      timestamp = Some (JStr ts), userEmail = Some (JStr ''a@b.com''), userId = None,
      pin = Some (JStr p)\<rparr>"

definition demoEvent :: "string \<Rightarrow> string \<Rightarrow> event" where
  "demoEvent ts p = \<lparr>parameterMethod = None, postData = Some (Payload (demoPayload ts p))\<rparr>"

text \<open>
  The log of the handler of part 000 after the request of 17:00:00 with the PIN \<open>p\<close> was
  logged with the status \<open>s\<close>; and the log of the second handler, with the header row of
  that handler alone, and after it logged the request of 17:00:00 with the PIN 1234.
\<close>

definition loggedOnce :: "string \<Rightarrow> string \<Rightarrow> spreadsheet" where
  "loggedOnce p s =
     [\<lparr>sname = ''Sheet1'',
       grid = [[JStr ''URL'', JStr ''Title'', JStr ''Timestamp'', JStr ''Email'',
                JStr ''User ID'', JStr ''PIN'', JStr ''Status''],
               [JStr ''https://example.com'', JStr ''Ex'', JStr ''2025-06-06T17:00:00Z'',
                JStr ''a@b.com'', JStr ''Unknown'', JStr p, JStr s]]\<rparr>]"

definition demoLog_v2 :: spreadsheet where
  "demoLog_v2 =
     [\<lparr>sname = ''Sheet1'',
       grid = [[JStr ''timeStamp'', JStr ''userEmail'', JStr ''websiteTitle'',
                JStr ''websiteRequested'', JStr ''pinNumber'', JStr ''pinStatus'']]\<rparr>]"

definition loggedOnce_v2 :: spreadsheet where
  "loggedOnce_v2 =
     [\<lparr>sname = ''Sheet1'',
       grid = [[JStr ''timeStamp'', JStr ''userEmail'', JStr ''websiteTitle'',
                JStr ''websiteRequested'', JStr ''pinNumber'', JStr ''pinStatus''],
               [JStr ''06/06/2025 10:00:00 AM'', JStr ''a@b.com'', JStr ''Ex'',
                JStr ''https://example.com'', JStr ''1234'', JStr ''Valid PIN'']]\<rparr>]"


text \<open>A request whose post data do not parse.\<close>

definition badEvent :: event where
  "badEvent = \<lparr>parameterMethod = None,
     postData = Some (Unparsable (Exn ''SyntaxError: Unexpected end of JSON input''))\<rparr>"

text \<open>A request to \<open>logAccessRequest\<close> whose time is an ISO 8601 text.\<close>

definition demoRequest :: requestData where
  "demoRequest =
     \<lparr>rd_url = JStr ''https://example.com'', rd_title = JStr ''Ex'',
      rd_timestamp = JStr ''2025-06-06T17:00:10Z'', rd_userEmail = JStr ''a@b.com'',
      rd_pin = JStr ''1234'', rd_isPinValid = True\<rparr>"

section \<open>Facts about strings and lists\<close>

lemmas demo_defs = demoHost_def demoParseDate_def demoFormatReadable_def demoToISOString_def
  demoDateToString_def demoExponentForm_def demoFormatLA_def demoStrToNumber_def demoDisplay_def
  readNum_def digitVal_def

lemma trim_unspaced:
  assumes "s \<noteq> []" and "\<not> isSpace (hd s)" and "\<not> isSpace (last s)"
  shows "trim s = s"
proof -
  from assms(1,2) have front: "dropWhile isSpace s = s"
    by (cases s) simp_all
  from assms(1,3) have "dropWhile isSpace (rev s) = rev s"
    by (cases "rev s") (simp_all add: hd_rev)
  with front show ?thesis
    by (simp add: trim_def)
qed

lemma dropTrailing_append_keep: "\<not> p x \<Longrightarrow> dropTrailing p (xs @ [x]) = xs @ [x]"
  by (simp add: dropTrailing_def)

lemma dropTrailing_length_le: "length (dropTrailing p xs) \<le> length xs"
  unfolding dropTrailing_def using length_dropWhile_le[of p "rev xs"] by simp

lemma dropTrailing_take: "take (length (dropTrailing p xs)) xs = dropTrailing p xs"
proof (induction xs rule: rev_induct)
  case Nil
  then show ?case by (simp add: dropTrailing_def)
next
  case (snoc x xs)
  show ?case
  proof (cases "p x")
    case True
    then have "dropTrailing p (xs @ [x]) = dropTrailing p xs"
      by (simp add: dropTrailing_def)
    with snoc dropTrailing_length_le[of p xs] show ?thesis by simp
  next
    case False
    then show ?thesis by (simp add: dropTrailing_append_keep)
  qed
qed

section \<open>Timestamp repair: fixed points\<close>

lemma ampm_last: "ampm (drop k r) \<Longrightarrow> r \<noteq> [] \<and> last r = CHR ''M''"
proof -
  assume a: "ampm (drop k r)"
  then have ne: "drop k r \<noteq> []" and l: "last (drop k r) = CHR ''M''"
    by (auto simp: ampm_def)
  from ne have "k < length r" by simp
  with l show ?thesis by auto
qed

lemma readableTail_last: "readableTail r \<Longrightarrow> r \<noteq> [] \<and> last r = CHR ''M''"
  unfolding readableTail_def timePart_def
  using ampm_last[of "5 + 15" r] ampm_last[of "6 + 15" r]
  by (auto simp: add.commute)

text \<open>A text of the readable pattern begins with a letter and ends with the letter M.\<close>

lemma readable_shape:
  assumes "isReadableTimestampFormat s"
  shows "s \<noteq> [] \<and> \<not> isSpace (hd s) \<and> \<not> isSpace (last s)"
proof -
  from assms obtain d where d: "d \<in> set weekdays" "startsWith s d"
      "readableTail (drop (length d) s)"
    by (auto simp: isReadableTimestampFormat_def list_ex_iff)
  from d(3) have "drop (length d) s \<noteq> []" and "last (drop (length d) s) = CHR ''M''"
    using readableTail_last by blast+
  then have s: "s \<noteq> []" and l: "last s = CHR ''M''"
    by auto
  from d(1,2) have "hd s \<in> set ''MTWFS''"
    by (cases s) (auto simp: weekdays_def startsWith_def)
  then have "\<not> isSpace (hd s)" by (auto simp: isSpace_def)
  with s l show ?thesis by (simp add: isSpace_def)
qed

lemma readable_fixed:
  assumes "isReadableTimestampFormat s"
  shows "detectAndFixTimestamp P (JStr s) = s"
proof -
  from readable_shape[OF assms] have "s \<noteq> []" and "trim s = s"
    by (simp_all add: trim_unspaced)
  with assms show ?thesis
    by (simp add: detectAndFixTimestamp_def)
qed

lemma demo_blank: "detectAndFixTimestamp demoHost (JStr ''  '') = []"
  by (simp add: detectAndFixTimestamp_def demo_defs trim_def isSpace_def
      isReadableTimestampFormat_def startsWith_def isIso8601_def weekdays_def)

lemma demo_empty:
  "detectAndFixTimestamp demoHost (JStr []) = ''Friday, Jun 06, 2025 05:00 PM''"
  by (simp add: detectAndFixTimestamp_def demo_defs createReadableTimestamp_def)

lemma demo_iso:
  "detectAndFixTimestamp demoHost (JStr ''2025-06-06T17:00:10Z'')
     = ''Friday, Jun 06, 2025 05:00 PM''"
  by (simp add: detectAndFixTimestamp_def demo_defs trim_def isSpace_def
      isReadableTimestampFormat_def startsWith_def isIso8601_def weekdays_def isDigit_def)

lemma demo_readable: "isReadableTimestampFormat ''Friday, Jun 06, 2025 05:00 PM''"
  by (simp add: isReadableTimestampFormat_def startsWith_def readableTail_def timePart_def
      ampm_def weekdays_def isDigit_def months_def)

lemma trim_ends:
  assumes "trim s \<noteq> []"
  shows "\<not> isSpace (hd (trim s))" and "\<not> isSpace (last (trim s))"
proof -
  let ?a = "dropWhile isSpace s"
  have t: "trim s = dropTrailing isSpace ?a"
    by (simp add: trim_def dropTrailing_def)
  with assms have ne: "dropWhile isSpace (rev ?a) \<noteq> []"
    by (simp add: dropTrailing_def)
  have "?a \<noteq> []"
  proof
    assume "?a = []"
    then have "dropWhile isSpace (rev ?a) = []" by (simp only: rev.simps dropWhile.simps)
    with ne show False ..
  qed
  then have a: "\<not> isSpace (hd ?a)"
    by (rule hd_dropWhile)
  have "trim s = take (length (trim s)) ?a"
    unfolding t by (simp add: dropTrailing_take)
  with assms have "hd (trim s) = hd ?a"
    by (metis hd_take length_greater_0_conv)
  with a show "\<not> isSpace (hd (trim s))" by simp
  have "last (trim s) = hd (dropWhile isSpace (rev ?a))"
    by (simp only: trim_def last_rev)
  with hd_dropWhile[OF ne] show "\<not> isSpace (last (trim s))" by simp
qed

lemma trim_trim: "trim (trim s) = trim s"
proof (cases "trim s = []")
  case True
  have "trim [] = []" by (simp add: trim_def)
  with True show ?thesis by simp
next
  case False
  from False trim_ends[OF False] show ?thesis by (rule trim_unspaced)
qed

text \<open>A text and its trimmed form are repaired to the same text, when the number conversion
  of the host ignores the surrounding white space and the two have ten characters together or
  not at all (a count of ten is what makes the code read a number as seconds).\<close>

lemma detect_trimmed_text:
  assumes "trim s \<noteq> []" and "strToNumber P (trim s) = strToNumber P s"
    and "(length (trim s) = 10) = (length s = 10)"
  shows "detectAndFixTimestamp P (JStr (trim s)) = detectAndFixTimestamp P (JStr s)"
proof -
  from assms(1) have s: "s \<noteq> []" by (auto simp: trim_def)
  show ?thesis
    using assms s
    by (simp add: detectAndFixTimestamp_def Let_def trim_trim cong: option.case_cong if_cong)
qed

lemma text_fixed:
  assumes "trim s \<noteq> []" and "\<forall>t. isReadableTimestampFormat (formatReadable P t)"
    and "strToNumber P (trim s) = strToNumber P s"
    and "(length (trim s) = 10) = (length s = 10)"
  shows "detectAndFixTimestamp P (JStr (detectAndFixTimestamp P (JStr s)))
     = detectAndFixTimestamp P (JStr s)"
proof -
  from assms(1) have s: "s \<noteq> []" by (auto simp: trim_def)
  have "isReadableTimestampFormat (detectAndFixTimestamp P (JStr s))
      \<or> detectAndFixTimestamp P (JStr s) = trim s"
    using assms(2) s
    by (auto simp: detectAndFixTimestamp_def Let_def split: option.splits)
  then consider (readable) "isReadableTimestampFormat (detectAndFixTimestamp P (JStr s))"
    | (kept) "detectAndFixTimestamp P (JStr s) = trim s"
    by blast
  then show ?thesis
  proof cases
    case readable
    then show ?thesis by (rule readable_fixed)
  next
    case kept
    with detect_trimmed_text[OF assms(1,3,4)] show ?thesis by simp
  qed
qed

lemma demo_formatter_readable: "isReadableTimestampFormat (formatReadable demoHost t)"
proof -
  have "formatReadable demoHost t \<in> {''Friday, Jun 06, 2025 04:50 PM'',
      ''Friday, Jun 06, 2025 04:59 PM'', ''Friday, Jun 06, 2025 05:00 PM'',
      ''Thursday, Jan 01, 1970 12:00 AM''}"
    by (simp add: demo_defs)
  moreover have "isReadableTimestampFormat ''Friday, Jun 06, 2025 04:50 PM''"
    "isReadableTimestampFormat ''Friday, Jun 06, 2025 04:59 PM''"
    "isReadableTimestampFormat ''Friday, Jun 06, 2025 05:00 PM''"
    "isReadableTimestampFormat ''Thursday, Jan 01, 1970 12:00 AM''"
    by (simp_all add: isReadableTimestampFormat_def startsWith_def readableTail_def timePart_def
        ampm_def weekdays_def isDigit_def months_def)
  ultimately show ?thesis by auto
qed

lemma demo_hello:
  "trim '' hello '' = ''hello''" "demoStrToNumber ''hello'' = demoStrToNumber '' hello ''"
  by (simp_all add: demoStrToNumber_def trim_def isSpace_def isDigit_def)

text \<open>
  C10, as the code has it. An output of \<open>detectAndFixTimestamp\<close> that matches the readable
  pattern is returned unchanged when the function is applied to it again. So is the output for
  a text with a character other than white space, on a host whose formatter produces the
  readable pattern and whose number conversion ignores surrounding white space, when the text
  and its trimmed form have ten characters together or not at all.
\<close>

theorem detectAndFixTimestamp_idempotent:
  assumes "isReadableTimestampFormat (detectAndFixTimestamp P v)
     \<or> (v = JStr s \<and> trim s \<noteq> []
        \<and> (\<forall>t. isReadableTimestampFormat (formatReadable P t))
        \<and> strToNumber P (trim s) = strToNumber P s
        \<and> (length (trim s) = 10) = (length s = 10))"
  shows "detectAndFixTimestamp P (JStr (detectAndFixTimestamp P v)) = detectAndFixTimestamp P v"
  using assms readable_fixed text_fixed by blast

theorem detectAndFixTimestamp_idempotent_witness:
  "isReadableTimestampFormat (detectAndFixTimestamp demoHost (JStr ''2025-06-06T17:00:10Z''))
   \<and> detectAndFixTimestamp demoHost
        (JStr (detectAndFixTimestamp demoHost (JStr ''2025-06-06T17:00:10Z'')))
      = detectAndFixTimestamp demoHost (JStr ''2025-06-06T17:00:10Z'')
   \<and> trim '' hello '' \<noteq> []
   \<and> (\<forall>t. isReadableTimestampFormat (formatReadable demoHost t))
   \<and> strToNumber demoHost (trim '' hello '') = strToNumber demoHost '' hello ''
   \<and> (length (trim '' hello '') = 10) = (length '' hello '' = 10)
   \<and> detectAndFixTimestamp demoHost (JStr (detectAndFixTimestamp demoHost (JStr '' hello '')))
      = detectAndFixTimestamp demoHost (JStr '' hello '')"
proof -
  have h: "trim '' hello '' \<noteq> []"
    "\<forall>t. isReadableTimestampFormat (formatReadable demoHost t)"
    "strToNumber demoHost (trim '' hello '') = strToNumber demoHost '' hello ''"
    "(length (trim '' hello '') = 10) = (length '' hello '' = 10)"
    by (simp_all add: demo_hello demo_formatter_readable) (simp add: demoHost_def demo_hello)
  have r: "isReadableTimestampFormat (detectAndFixTimestamp demoHost (JStr ''2025-06-06T17:00:10Z''))"
    by (simp add: demo_iso demo_readable)
  from detectAndFixTimestamp_idempotent[of demoHost "JStr ''2025-06-06T17:00:10Z''"] r
  have 1: "detectAndFixTimestamp demoHost
        (JStr (detectAndFixTimestamp demoHost (JStr ''2025-06-06T17:00:10Z'')))
      = detectAndFixTimestamp demoHost (JStr ''2025-06-06T17:00:10Z'')"
    by blast
  from detectAndFixTimestamp_idempotent[of demoHost "JStr '' hello ''" "'' hello ''"] h
  have 2: "detectAndFixTimestamp demoHost (JStr (detectAndFixTimestamp demoHost (JStr '' hello '')))
      = detectAndFixTimestamp demoHost (JStr '' hello '')"
    by blast
  from r 1 h 2 show ?thesis by (intro conjI)
qed

text \<open>
  C10 as stated fails on a text of white space only: the first application finds no date in
  it and returns its trimmed form, the empty text; the second application takes the empty
  text for a missing value and returns the current time.
\<close>

theorem detectAndFixTimestamp_not_idempotent:
  "detectAndFixTimestamp demoHost (JStr (detectAndFixTimestamp demoHost (JStr ''  '')))
     \<noteq> detectAndFixTimestamp demoHost (JStr ''  '')"
  by (simp add: demo_blank demo_empty)

section \<open>Facts about sheets\<close>

lemma findIndex_Some:
  "findIndex p xs = Some i \<Longrightarrow> i < length xs \<and> p (xs ! i)"
proof (induction xs arbitrary: i)
  case Nil
  then show ?case by simp
next
  case (Cons x xs)
  then show ?case
    by (cases "p x") (auto simp: nth_Cons split: nat.splits)
qed

lemma findIndex_update:
  "p y = p (xs ! i) \<Longrightarrow> i < length xs \<Longrightarrow> findIndex p (xs[i := y]) = findIndex p xs"
proof (induction xs arbitrary: i)
  case Nil
  then show ?case by simp
next
  case (Cons x xs)
  then show ?case by (cases i) auto
qed

lemma getSheetByName_Some:
  "getSheetByName ss n = Some i \<Longrightarrow> i < length ss \<and> sname (ss ! i) = n"
  unfolding getSheetByName_def by (drule findIndex_Some) simp

lemma getSheetByName_update:
  "i < length ss \<Longrightarrow> sname sh = sname (ss ! i)
     \<Longrightarrow> getSheetByName (ss[i := sh]) n = getSheetByName ss n"
  unfolding getSheetByName_def by (rule findIndex_update) simp_all

lemma dropTrailing_beyond:
  "length (dropTrailing p xs) \<le> j \<Longrightarrow> j < length xs \<Longrightarrow> p (xs ! j)"
proof (induction xs rule: rev_induct)
  case Nil
  then show ?case by simp
next
  case (snoc x xs)
  show ?case
  proof (cases "p x")
    case True
    then have eq: "dropTrailing p (xs @ [x]) = dropTrailing p xs"
      by (simp add: dropTrailing_def)
    show ?thesis
    proof (cases "j < length xs")
      case True
      with snoc eq show ?thesis by (simp add: nth_append)
    next
      case False
      with snoc.prems \<open>p x\<close> show ?thesis by (simp add: nth_append)
    qed
  next
    case False
    with snoc.prems show ?thesis by (simp add: dropTrailing_append_keep)
  qed
qed

lemma getLastRow_le: "getLastRow sh \<le> length (grid sh)"
  unfolding getLastRow_def by (rule dropTrailing_length_le)

lemma sname_appendRow [simp]: "sname (appendRow sh r) = sname sh"
  by (simp add: appendRow_def)

lemma grid_appendRow: "grid (appendRow sh r) = take (getLastRow sh) (grid sh) @ [r]"
  by (simp add: appendRow_def)

lemma getLastRow_appendRow:
  assumes "rowContent r \<noteq> []"
  shows "getLastRow (appendRow sh r) = Suc (getLastRow sh)"
  using assms getLastRow_le[of sh]
  by (simp add: getLastRow_def[of "appendRow sh r"] grid_appendRow dropTrailing_append_keep)

lemma rowContent_last_filled: "r \<noteq> [] \<Longrightarrow> \<not> isBlank (last r) \<Longrightarrow> rowContent r = r"
  unfolding rowContent_def using dropTrailing_append_keep[of isBlank "last r" "butlast r"]
  by simp

lemma row_p0_content: "rowContent (row_p0 P d (status_p0 v dup)) \<noteq> []"
  by (subst rowContent_last_filled) (simp_all add: row_p0_def status_p0_def isBlank_def)

lemma row_v2_content: "rowContent (row_v2 ts d (status_v2 v dup)) \<noteq> []"
  by (subst rowContent_last_filled) (simp_all add: row_v2_def status_v2_def isBlank_def)

section \<open>The URL logging handlers on the logging path\<close>

text \<open>
  What the handler of part 000 does with a request that is no preflight, whose post data
  parse, when the log has its sheet.
\<close>

lemma doPost_p0_logged:
  assumes "\<not> isPreflight e" and "postData e = Some (Payload d)"
    and "getSheetByName ss ''Sheet1'' = Some i"
  shows "doPost_p0 P ps (Inr ss) e =
     (let v = inlinePinCheck P ps ''PINs'' (pinOf d);
          dup = isDuplicate P (ss ! i) v (urlOf d) (newDate P (timestampOf P d))
      in (respond v dup ''URL already requested within last 5 minutes.'',
          Inr (ss[i := appendRow (ss ! i) (row_p0 P d (status_p0 v dup))])))"
  using assms by (simp add: doPost_p0_def doPost_p0_body_def Let_def)

lemma doPost_v2_logged:
  assumes "\<not> isPreflight e" and "postData e = Some (Payload d)"
    and "getSheetByName ss ''Sheet1'' = Some i"
    and "formatLA P (newDate P (timestampOf P d)) = Inr ts"
  shows "doPost_v2 P ps (Inr ss) e =
     (let sh = ensureHeaders_v2 P (ss ! i);
          v = inlinePinCheck P ps ''Sheet1'' (pinOf d);
          dup = isDuplicate P sh v (urlOf d) (newDate P (timestampOf P d))
      in (respond v dup ''URL already requested within last 1 minute.'',
          Inr (ss[i := appendRow sh (row_v2 ts d (status_v2 v dup))])))"
  using assms by (simp add: doPost_v2_def doPost_v2_body_def Let_def)

lemma appendRow_keeps_rows:
  "take (getLastRow sh) (grid (appendRow sh r)) = take (getLastRow sh) (grid sh)"
  using getLastRow_le[of sh] by (simp add: grid_appendRow)

lemma appendRow_last_row: "grid (appendRow sh r) ! getLastRow sh = r"
  using getLastRow_le[of sh] by (simp add: grid_appendRow nth_append)

text \<open>
  C9. A request that reaches the logging step gets one row appended, whatever the PIN check
  and the duplicate check say: the log sheet is the old one with the row of the request
  after its last row, the rows before it are as they were, and the number of the last row
  has grown by one. In the second handler the sheet the row is appended to is the log sheet
  with its header row in place.
\<close>

theorem every_post_appends_one_row:
  assumes "\<not> isPreflight e" and "postData e = Some (Payload d)"
    and "getSheetByName ss ''Sheet1'' = Some i"
  shows "(\<exists>v dup. let sh = ss ! i; row = row_p0 P d (status_p0 v dup)
           in doPost_p0 P ps (Inr ss) e =
                (respond v dup ''URL already requested within last 5 minutes.'',
                 Inr (ss[i := appendRow sh row]))
              \<and> getLastRow (appendRow sh row) = Suc (getLastRow sh)
              \<and> grid (appendRow sh row) ! getLastRow sh = row
              \<and> take (getLastRow sh) (grid (appendRow sh row)) = take (getLastRow sh) (grid sh))
       \<and> (\<forall>ts. formatLA P (newDate P (timestampOf P d)) = Inr ts \<longrightarrow>
           (\<exists>v dup. let sh = ensureHeaders_v2 P (ss ! i); row = row_v2 ts d (status_v2 v dup)
              in doPost_v2 P ps (Inr ss) e =
                   (respond v dup ''URL already requested within last 1 minute.'',
                    Inr (ss[i := appendRow sh row]))
                 \<and> getLastRow (appendRow sh row) = Suc (getLastRow sh)
                 \<and> grid (appendRow sh row) ! getLastRow sh = row
                 \<and> take (getLastRow sh) (grid (appendRow sh row))
                     = take (getLastRow sh) (grid sh)))"
proof (intro conjI allI impI)
  let ?v = "inlinePinCheck P ps ''PINs'' (pinOf d)"
  let ?dup = "isDuplicate P (ss ! i) ?v (urlOf d) (newDate P (timestampOf P d))"
  show "\<exists>v dup. let sh = ss ! i; row = row_p0 P d (status_p0 v dup)
           in doPost_p0 P ps (Inr ss) e =
                (respond v dup ''URL already requested within last 5 minutes.'',
                 Inr (ss[i := appendRow sh row]))
              \<and> getLastRow (appendRow sh row) = Suc (getLastRow sh)
              \<and> grid (appendRow sh row) ! getLastRow sh = row
              \<and> take (getLastRow sh) (grid (appendRow sh row)) = take (getLastRow sh) (grid sh)"
    using doPost_p0_logged[OF assms, of P ps]
    by (intro exI[of _ ?v] exI[of _ ?dup])
       (simp add: Let_def getLastRow_appendRow row_p0_content appendRow_keeps_rows
          appendRow_last_row)
next
  fix ts
  assume ts: "formatLA P (newDate P (timestampOf P d)) = Inr ts"
  let ?sh = "ensureHeaders_v2 P (ss ! i)"
  let ?v = "inlinePinCheck P ps ''Sheet1'' (pinOf d)"
  let ?dup = "isDuplicate P ?sh ?v (urlOf d) (newDate P (timestampOf P d))"
  show "\<exists>v dup. let sh = ensureHeaders_v2 P (ss ! i); row = row_v2 ts d (status_v2 v dup)
              in doPost_v2 P ps (Inr ss) e =
                   (respond v dup ''URL already requested within last 1 minute.'',
                    Inr (ss[i := appendRow sh row]))
                 \<and> getLastRow (appendRow sh row) = Suc (getLastRow sh)
                 \<and> grid (appendRow sh row) ! getLastRow sh = row
                 \<and> take (getLastRow sh) (grid (appendRow sh row))
                     = take (getLastRow sh) (grid sh)"
    using doPost_v2_logged[OF assms ts, of ps]
    by (intro exI[of _ ?v] exI[of _ ?dup])
       (simp add: Let_def getLastRow_appendRow row_v2_content appendRow_keeps_rows
          appendRow_last_row)
qed

section \<open>Reading a cell after a write\<close>

lemma cellAt_zero [simp]: "cellAt sh 0 c = blankCell" "cellAt sh r 0 = blankCell"
  by (simp_all add: cellAt_def)

lemma cellAt_setValue:
  assumes "1 \<le> r" and "1 \<le> c"
  shows "cellAt (setValue sh r c v) r' c' = (if r' = r \<and> c' = c then v else cellAt sh r' c')"
proof -
  define g where "g = padTo r [] (grid sh)"
  define padded where "padded = padTo c blankCell (g ! (r - 1))"
  have gr: "grid (setValue sh r c v) = g[r - 1 := padded[c - 1 := v]]"
    by (simp add: setValue_def Let_def g_def padded_def)
  have lg: "length g = max r (length (grid sh))"
    by (simp add: g_def padTo_def)
  have old: "g ! (r - 1) = (if r \<le> length (grid sh) then grid sh ! (r - 1) else [])"
    using assms by (auto simp: g_def padTo_def nth_append)
  have others: "k \<noteq> r - 1 \<Longrightarrow> k < length (grid sh) \<Longrightarrow> g ! k = grid sh ! k" for k
    by (simp add: g_def padTo_def nth_append)
  have beyond: "k \<noteq> r - 1 \<Longrightarrow> length (grid sh) \<le> k \<Longrightarrow> k < length g \<Longrightarrow> g ! k = []" for k
    by (simp add: g_def padTo_def nth_append)
  have lp: "length padded = max c (length (g ! (r - 1)))"
    by (simp add: padded_def padTo_def)
  have pn: "k < length (g ! (r - 1)) \<Longrightarrow> padded ! k = g ! (r - 1) ! k" for k
    by (simp add: padded_def padTo_def nth_append)
  have pb: "length (g ! (r - 1)) \<le> k \<Longrightarrow> k < length padded \<Longrightarrow> padded ! k = blankCell" for k
    by (simp add: padded_def padTo_def nth_append)
  have here: "grid (setValue sh r c v) ! (r - 1) = padded[c - 1 := v]"
    using assms lg by (simp add: gr)
  show ?thesis
  proof (cases "r' = r")
    case True
    show ?thesis
    proof (cases "c' = c")
      case True
      with \<open>r' = r\<close> assms lg lp here show ?thesis
        by (simp add: cellAt_def gr)
    next
      case False
      have "cellAt (setValue sh r c v) r c' =
          (if 1 \<le> c' \<and> c' \<le> length (g ! (r - 1)) then g ! (r - 1) ! (c' - 1) else blankCell)"
      proof (cases "1 \<le> c' \<and> c' \<le> length padded")
        case True
        then have "cellAt (setValue sh r c v) r c' = padded ! (c' - 1)"
          using assms lg here False by (auto simp: cellAt_def gr)
        also have "\<dots> = (if c' \<le> length (g ! (r - 1)) then g ! (r - 1) ! (c' - 1)
                           else blankCell)"
          using True pn[of "c' - 1"] pb[of "c' - 1"] by auto
        finally show ?thesis using True by simp
      next
        case False
        then show ?thesis
          using assms lg lp here by (auto simp: cellAt_def gr)
      qed
      also have "\<dots> = cellAt sh r c'"
        using assms old by (auto simp: cellAt_def)
      finally show ?thesis using \<open>r' = r\<close> False by simp
    qed
  next
    case False
    show ?thesis
    proof (cases "1 \<le> r' \<and> r' \<le> length g")
      case True
      with False assms have ne: "r' - 1 \<noteq> r - 1" by auto
      with True have "grid (setValue sh r c v) ! (r' - 1) = g ! (r' - 1)"
        by (simp add: gr)
      moreover have "g ! (r' - 1) = (if r' \<le> length (grid sh) then grid sh ! (r' - 1) else [])"
        using others[of "r' - 1"] beyond[of "r' - 1"] ne True by auto
      ultimately show ?thesis
        using False True lg by (auto simp: cellAt_def gr)
    next
      case False
      then show ?thesis
        using \<open>r' \<noteq> r\<close> lg by (auto simp: cellAt_def gr)
    qed
  qed
qed

lemma cellAt_setRowValues:
  assumes "1 \<le> r" and "1 \<le> c"
  shows "cellAt (setRowValues sh r c vals) r' c' =
     (if r' = r \<and> c \<le> c' \<and> c' < c + length vals then vals ! (c' - c) else cellAt sh r' c')"
  using assms
proof (induction vals arbitrary: sh c)
  case Nil
  then show ?case by auto
next
  case (Cons v vs)
  then show ?case
    by (auto simp: cellAt_setValue nth_Cons')
qed

lemma cellAt_setColumnValues:
  assumes "1 \<le> r" and "1 \<le> c"
  shows "cellAt (setColumnValues sh r c vals) r' c' =
     (if c' = c \<and> r \<le> r' \<and> r' < r + length vals then vals ! (r' - r) else cellAt sh r' c')"
  using assms
proof (induction vals arbitrary: sh r)
  case Nil
  then show ?case by auto
next
  case (Cons v vs)
  then show ?case
    by (auto simp: cellAt_setValue nth_Cons')
qed

lemma cellAt_clearContent:
  "cellAt (clearContent sh r c nr nc) r' c' =
     (if r \<le> r' \<and> r' < r + nr \<and> c \<le> c' \<and> c' < c + nc \<and> cellAt sh r' c' \<noteq> blankCell
      then blankCell else cellAt sh r' c')"
  by (auto simp: cellAt_def clearContent_def nth_enumerate_eq)

lemma length_grid_setValue: "length (grid (setValue sh r c v)) = max r (length (grid sh))"
  by (simp add: setValue_def Let_def padTo_def)

lemma length_grid_setColumnValues:
  "r + length vals \<le> Suc (length (grid sh))
     \<Longrightarrow> length (grid (setColumnValues sh r c vals)) = length (grid sh)"
proof (induction vals arbitrary: sh r)
  case Nil
  then show ?case by simp
next
  case (Cons v vs)
  then show ?case by (simp add: length_grid_setValue)
qed

lemma sname_setValue [simp]: "sname (setValue sh r c v) = sname sh"
  by (simp add: setValue_def Let_def)

lemma sname_setRowValues [simp]: "sname (setRowValues sh r c vals) = sname sh"
  by (induction vals arbitrary: sh c) simp_all

lemma sname_setColumnValues [simp]: "sname (setColumnValues sh r c vals) = sname sh"
  by (induction vals arbitrary: sh r) simp_all

lemma sname_clearContent [simp]: "sname (clearContent sh r c nr nc) = sname sh"
  by (simp add: clearContent_def)

lemma sname_insertRowBefore1 [simp]: "sname (insertRowBefore1 sh) = sname sh"
  by (simp add: insertRowBefore1_def)

text \<open>Beyond the last column, and below the last row, every cell is empty.\<close>

lemma rowContent_le_lastColumn:
  "row \<in> set g \<Longrightarrow> length (rowContent row) \<le> foldr (\<lambda>r m. max (length (rowContent r)) m) g 0"
  by (induction g) auto

lemma cellAt_beyond_lastColumn:
  assumes "getLastColumn sh < c"
  shows "cellAt sh r c = blankCell"
proof (cases "1 \<le> r \<and> r \<le> length (grid sh) \<and> 1 \<le> c \<and> c \<le> length (grid sh ! (r - 1))")
  case True
  let ?row = "grid sh ! (r - 1)"
  from True have "?row \<in> set (grid sh)" by (intro nth_mem) auto
  then have "length (rowContent ?row) \<le> getLastColumn sh"
    unfolding getLastColumn_def by (rule rowContent_le_lastColumn)
  with assms True have "isBlank (?row ! (c - 1))"
    unfolding rowContent_def
    using dropTrailing_beyond[where p = isBlank and xs = "?row" and j = "c - 1"] by auto
  with True show ?thesis by (simp add: cellAt_def isBlank_def blankCell_def)
next
  case False
  then show ?thesis by (auto simp: cellAt_def)
qed

lemma filled_cell_row:
  assumes "cellAt sh r c \<noteq> blankCell"
  shows "r \<le> getLastRow sh"
proof (rule ccontr)
  assume "\<not> r \<le> getLastRow sh"
  then have lt: "getLastRow sh < r" by simp
  from assms have rng: "1 \<le> r" "r \<le> length (grid sh)" "1 \<le> c" "c \<le> length (grid sh ! (r - 1))"
    and cell: "grid sh ! (r - 1) ! (c - 1) \<noteq> blankCell"
    by (auto simp: cellAt_def split: if_splits)
  from lt rng have "rowContent (grid sh ! (r - 1)) = []"
    unfolding getLastRow_def
    using dropTrailing_beyond[where p = "\<lambda>row. rowContent row = []" and xs = "grid sh"
        and j = "r - 1"] by auto
  then have "isBlank (grid sh ! (r - 1) ! (c - 1))"
    unfolding rowContent_def
    using dropTrailing_beyond[where p = isBlank and xs = "grid sh ! (r - 1)" and j = "c - 1"] rng
    by auto
  with cell show False by (simp add: isBlank_def blankCell_def)
qed

lemma cellAt_appendRow_old:
  assumes "r \<le> getLastRow sh"
  shows "cellAt (appendRow sh row) r c = cellAt sh r c"
  using assms getLastRow_le[of sh]
  by (auto simp: cellAt_def grid_appendRow nth_append min_def)

lemma cellAt_appendRow_new:
  "cellAt (appendRow sh row) (Suc (getLastRow sh)) c
     = (if 1 \<le> c \<and> c \<le> length row then row ! (c - 1) else blankCell)"
  using getLastRow_le[of sh]
  by (auto simp: cellAt_def grid_appendRow nth_append min_def)

section \<open>The header row of the second handler\<close>

lemma getRowValues_appendRow:
  "Suc 0 \<le> getLastRow sh
     \<Longrightarrow> getRowValues (appendRow sh row) (Suc 0) c n = getRowValues sh (Suc 0) c n"
  by (simp add: getRowValues_def cellAt_appendRow_old)

lemma getRowValues_setRowValues:
  "getRowValues (setRowValues sh (Suc 0) (Suc 0) vals) (Suc 0) (Suc 0) (length vals) = vals"
  by (rule nth_equalityI) (simp_all add: getRowValues_def cellAt_setRowValues)

lemma headers_v2_written:
  "getRowValues (setRowValues sh (Suc 0) (Suc 0) (map JStr expectedHeaders_v2)) (Suc 0) (Suc 0) 6
     = map JStr expectedHeaders_v2"
proof -
  have "length (map JStr expectedHeaders_v2) = 6"
    by (simp add: expectedHeaders_v2_def)
  then show ?thesis
    using getRowValues_setRowValues[of sh "map JStr expectedHeaders_v2"] by simp
qed

lemma headers_v2_text: "x \<in> set expectedHeaders_v2 \<Longrightarrow> trim x = x"
  by (auto simp: expectedHeaders_v2_def trim_def isSpace_def)

lemma headersMatch_v2_ensured: "headersMatch_v2 P (ensureHeaders_v2 P sh)"
proof (cases "headersMatch_v2 P sh")
  case True
  then show ?thesis by (simp add: ensureHeaders_v2_def)
next
  case False
  then show ?thesis
    by (simp add: ensureHeaders_v2_def headersMatch_v2_def[of P "setRowValues _ _ _ _"]
        headers_v2_written headers_v2_text)
qed

lemma headersMatch_v2_row:
  assumes "headersMatch_v2 P sh"
  shows "1 \<le> getLastRow sh"
proof -
  from assms have "toLowerCase (trim (toStringJs P (cellAt sh 1 1))) = ''timestamp''"
    by (simp add: headersMatch_v2_def getRowValues_def expectedHeaders_v2_def upt_rec
        toLowerCase_def lowerChar_def upperLetters_def lowerLetters_def
        upperAccented_def lowerAccented_def)
  then have "cellAt sh 1 1 \<noteq> blankCell"
    by (auto simp: blankCell_def trim_def toLowerCase_def)
  then show ?thesis by (rule filled_cell_row)
qed

lemma ensureHeaders_v2_settled:
  "ensureHeaders_v2 P (appendRow (ensureHeaders_v2 P sh) row)
     = appendRow (ensureHeaders_v2 P sh) row"
proof -
  have m: "headersMatch_v2 P (ensureHeaders_v2 P sh)"
    by (rule headersMatch_v2_ensured)
  then have "headersMatch_v2 P (appendRow (ensureHeaders_v2 P sh) row)"
    using headersMatch_v2_row[OF m]
    by (simp add: headersMatch_v2_def getRowValues_appendRow)
  then show ?thesis
    by (simp add: ensureHeaders_v2_def[of P "appendRow _ _"])
qed

lemma sname_ensureHeaders_v2 [simp]: "sname (ensureHeaders_v2 P sh) = sname sh"
  by (simp add: ensureHeaders_v2_def)

section \<open>Invalid PINs\<close>

lemma respond_invalid: "respond False dup m = JsonOutput failureBody"
  by (simp add: respond_def)

lemma isDuplicate_invalid: "isDuplicate P sh False u t = False"
  by (simp add: isDuplicate_def)

text \<open>
  C3. Two requests with PINs that do not validate, sent one after the other (for the same URL
  or not): neither is classified as a duplicate, each is answered as a failure, and each
  gets its row appended with the failed status of the handler. This holds for the handler of
  part 000 and for the second handler of the access request file.
\<close>

theorem invalid_pin_never_duplicate:
  assumes "\<not> isPreflight e1" and "postData e1 = Some (Payload d1)"
    and "\<not> isPreflight e2" and "postData e2 = Some (Payload d2)"
    and "getSheetByName ss ''Sheet1'' = Some i"
  shows "(\<not> inlinePinCheck P ps ''PINs'' (pinOf d1) \<and> \<not> inlinePinCheck P ps ''PINs'' (pinOf d2)
          \<longrightarrow> (let sh1 = appendRow (ss ! i) (row_p0 P d1 ''Failed (Invalid PIN)'');
                   sh2 = appendRow sh1 (row_p0 P d2 ''Failed (Invalid PIN)'')
               in doPost_p0 P ps (Inr ss) e1 = (JsonOutput failureBody, Inr (ss[i := sh1]))
                  \<and> doPost_p0 P ps (Inr (ss[i := sh1])) e2
                      = (JsonOutput failureBody, Inr (ss[i := sh2]))))
       \<and> (\<not> inlinePinCheck P ps ''Sheet1'' (pinOf d1)
          \<and> \<not> inlinePinCheck P ps ''Sheet1'' (pinOf d2)
          \<and> formatLA P (newDate P (timestampOf P d1)) = Inr ts1
          \<and> formatLA P (newDate P (timestampOf P d2)) = Inr ts2
          \<longrightarrow> (let sh1 = appendRow (ensureHeaders_v2 P (ss ! i)) (row_v2 ts1 d1 ''Invalid PIN'');
                   sh2 = appendRow sh1 (row_v2 ts2 d2 ''Invalid PIN'')
               in doPost_v2 P ps (Inr ss) e1 = (JsonOutput failureBody, Inr (ss[i := sh1]))
                  \<and> doPost_v2 P ps (Inr (ss[i := sh1])) e2
                      = (JsonOutput failureBody, Inr (ss[i := sh2]))))"
proof (intro conjI impI)
  from assms(5) have i: "i < length ss" and n: "sname (ss ! i) = ''Sheet1''"
    using getSheetByName_Some by blast+
  {
    assume inv: "\<not> inlinePinCheck P ps ''PINs'' (pinOf d1)
       \<and> \<not> inlinePinCheck P ps ''PINs'' (pinOf d2)"
    let ?sh1 = "appendRow (ss ! i) (row_p0 P d1 ''Failed (Invalid PIN)'')"
    have first: "doPost_p0 P ps (Inr ss) e1 = (JsonOutput failureBody, Inr (ss[i := ?sh1]))"
      using doPost_p0_logged[OF assms(1,2,5), of P ps] inv
      by (simp add: Let_def respond_invalid isDuplicate_invalid status_p0_def)
    have "getSheetByName (ss[i := ?sh1]) ''Sheet1'' = Some i"
      using i assms(5) by (simp add: getSheetByName_update)
    from doPost_p0_logged[OF assms(3,4) this, of P ps] inv i
    have "doPost_p0 P ps (Inr (ss[i := ?sh1])) e2
        = (JsonOutput failureBody,
           Inr (ss[i := appendRow ?sh1 (row_p0 P d2 ''Failed (Invalid PIN)'')]))"
      by (simp add: Let_def respond_invalid isDuplicate_invalid status_p0_def)
    with first
    show "let sh1 = appendRow (ss ! i) (row_p0 P d1 ''Failed (Invalid PIN)'');
              sh2 = appendRow sh1 (row_p0 P d2 ''Failed (Invalid PIN)'')
          in doPost_p0 P ps (Inr ss) e1 = (JsonOutput failureBody, Inr (ss[i := sh1]))
             \<and> doPost_p0 P ps (Inr (ss[i := sh1])) e2
                 = (JsonOutput failureBody, Inr (ss[i := sh2]))"
      by (simp add: Let_def)
  }
  {
    assume inv: "\<not> inlinePinCheck P ps ''Sheet1'' (pinOf d1)
          \<and> \<not> inlinePinCheck P ps ''Sheet1'' (pinOf d2)
          \<and> formatLA P (newDate P (timestampOf P d1)) = Inr ts1
          \<and> formatLA P (newDate P (timestampOf P d2)) = Inr ts2"
    let ?sh1 = "appendRow (ensureHeaders_v2 P (ss ! i)) (row_v2 ts1 d1 ''Invalid PIN'')"
    from inv have t1: "formatLA P (newDate P (timestampOf P d1)) = Inr ts1"
      and t2: "formatLA P (newDate P (timestampOf P d2)) = Inr ts2" by simp_all
    have first: "doPost_v2 P ps (Inr ss) e1 = (JsonOutput failureBody, Inr (ss[i := ?sh1]))"
      using doPost_v2_logged[OF assms(1,2,5) t1, of ps] inv
      by (simp add: Let_def respond_invalid isDuplicate_invalid status_v2_def)
    have "getSheetByName (ss[i := ?sh1]) ''Sheet1'' = Some i"
      using i assms(5) by (simp add: getSheetByName_update)
    from doPost_v2_logged[OF assms(3,4) this t2, of ps] inv i
    have "doPost_v2 P ps (Inr (ss[i := ?sh1])) e2
        = (JsonOutput failureBody,
           Inr (ss[i := appendRow ?sh1 (row_v2 ts2 d2 ''Invalid PIN'')]))"
      by (simp add: Let_def respond_invalid isDuplicate_invalid status_v2_def
          ensureHeaders_v2_settled)
    with first
    show "let sh1 = appendRow (ensureHeaders_v2 P (ss ! i)) (row_v2 ts1 d1 ''Invalid PIN'');
              sh2 = appendRow sh1 (row_v2 ts2 d2 ''Invalid PIN'')
          in doPost_v2 P ps (Inr ss) e1 = (JsonOutput failureBody, Inr (ss[i := sh1]))
             \<and> doPost_v2 P ps (Inr (ss[i := sh1])) e2
                 = (JsonOutput failureBody, Inr (ss[i := sh2]))"
      by (simp add: Let_def)
  }
qed

section \<open>A PIN store that cannot be opened\<close>

lemma inlinePinCheck_unavailable: "inlinePinCheck P (Inl err) n p = False"
  by (simp add: inlinePinCheck_def)

text \<open>
  C7. When opening the PIN store throws, the exception stays inside the validation:
  \<open>validatePin\<close> returns false and \<open>validatePinFromSheet\<close> reports an invalid PIN, for every
  candidate; the URL logging handlers answer with the failure for an invalid PIN and log the
  request with their failed status.
\<close>

theorem pin_store_failure_is_invalid_pin:
  "validatePin P (Inl err) p = False
   \<and> \<not> isValid (fst (validatePinFromSheet P (Inl err) p))
   \<and> (\<not> isPreflight e \<and> postData e = Some (Payload d) \<and> getSheetByName ss ''Sheet1'' = Some i
      \<longrightarrow> doPost_p0 P (Inl err) (Inr ss) e =
            (JsonOutput failureBody,
             Inr (ss[i := appendRow (ss ! i) (row_p0 P d ''Failed (Invalid PIN)'')])))
   \<and> (\<not> isPreflight e \<and> postData e = Some (Payload d) \<and> getSheetByName ss ''Sheet1'' = Some i
      \<and> formatLA P (newDate P (timestampOf P d)) = Inr ts
      \<longrightarrow> doPost_v2 P (Inl err) (Inr ss) e =
            (JsonOutput failureBody,
             Inr (ss[i := appendRow (ensureHeaders_v2 P (ss ! i))
                            (row_v2 ts d ''Invalid PIN'')])))"
proof (intro conjI impI)
  show "validatePin P (Inl err) p = False"
    by (simp add: validatePin_def)
  show "\<not> isValid (fst (validatePinFromSheet P (Inl err) p))"
    by (simp add: validatePinFromSheet_def)
next
  assume a: "\<not> isPreflight e \<and> postData e = Some (Payload d)
     \<and> getSheetByName ss ''Sheet1'' = Some i"
  then show "doPost_p0 P (Inl err) (Inr ss) e =
      (JsonOutput failureBody,
       Inr (ss[i := appendRow (ss ! i) (row_p0 P d ''Failed (Invalid PIN)'')]))"
    using doPost_p0_logged[of e d ss i P "Inl err"]
    by (simp add: Let_def inlinePinCheck_unavailable respond_invalid isDuplicate_invalid
        status_p0_def)
next
  assume a: "\<not> isPreflight e \<and> postData e = Some (Payload d)
     \<and> getSheetByName ss ''Sheet1'' = Some i
     \<and> formatLA P (newDate P (timestampOf P d)) = Inr ts"
  then show "doPost_v2 P (Inl err) (Inr ss) e =
      (JsonOutput failureBody,
       Inr (ss[i := appendRow (ensureHeaders_v2 P (ss ! i)) (row_v2 ts d ''Invalid PIN'')]))"
    using doPost_v2_logged[of e d ss i P ts "Inl err"]
    by (simp add: Let_def inlinePinCheck_unavailable respond_invalid isDuplicate_invalid
        status_v2_def)
qed

section \<open>The concrete stores and requests, evaluated\<close>

lemma demoEvent_posts:
  "\<not> isPreflight (demoEvent ts p)" "postData (demoEvent ts p) = Some (Payload (demoPayload ts p))"
  by (simp_all add: isPreflight_def demoEvent_def)

lemma demoLog_sheet: "getSheetByName demoLog ''Sheet1'' = Some 0"
  by (simp add: getSheetByName_def demoLog_def)

lemma demo_time:
  "newDate demoHost (timestampOf demoHost (demoPayload ''2025-06-06T17:00:00Z'' p))
     = Some 1749229200000"
  "newDate demoHost (timestampOf demoHost (demoPayload ''2025-06-06T17:00:10Z'' p))
     = Some 1749229210000"
  by (simp_all add: timestampOf_def demoPayload_def orDefault_def demo_defs)

lemma demo_formatLA:
  "formatLA demoHost (Some 1749229200000) = Inr ''06/06/2025 10:00:00 AM''"
  "formatLA demoHost (Some 1749229210000) = Inr ''06/06/2025 10:00:10 AM''"
  by (simp_all add: demo_defs)

lemma demo_pinOf: "pinOf (demoPayload ts p) = (if p = [] then JStr ''Not Provided'' else JStr p)"
  by (simp add: pinOf_def demoPayload_def orDefault_def)

lemma demoPins_list:
  "inlinePinCheck demoHost (Inr demoPins) ''PINs'' (JStr p) = inlinePinLoop (trim p) [''1234'', ''abc'']"
  "inlinePinCheck demoHost (Inr demoPins) ''Sheet1'' (JStr p) = inlinePinLoop (trim p) [''1234'', ''abc'']"
  by (simp_all add: inlinePinCheck_def getSheetByName_def demoPins_def inlinePinList_def
      getLastRow_def dropTrailing_def rowContent_def isBlank_def getColumnDisplayValues_def
      getColumnValues_def cellAt_def displayValue_def upt_rec)

lemma demo_wrong_pin:
  "\<not> inlinePinCheck demoHost (Inr demoPins) ''PINs'' (pinOf (demoPayload ts ''wrong''))"
  "\<not> inlinePinCheck demoHost (Inr demoPins) ''Sheet1'' (pinOf (demoPayload ts ''wrong''))"
  by (simp_all add: demo_pinOf demoPins_list trim_def isSpace_def)

lemma demo_right_pin:
  "inlinePinCheck demoHost (Inr demoPins) ''PINs'' (pinOf (demoPayload ts ''1234''))"
  "inlinePinCheck demoHost (Inr demoPins) ''Sheet1'' (pinOf (demoPayload ts ''1234''))"
  by (simp_all add: demo_pinOf demoPins_list trim_def isSpace_def)

theorem every_post_appends_one_row_witness:
  "\<not> isPreflight (demoEvent ''2025-06-06T17:00:00Z'' ''1234'')
   \<and> postData (demoEvent ''2025-06-06T17:00:00Z'' ''1234'')
       = Some (Payload (demoPayload ''2025-06-06T17:00:00Z'' ''1234''))
   \<and> getSheetByName demoLog ''Sheet1'' = Some 0
   \<and> formatLA demoHost
        (newDate demoHost (timestampOf demoHost (demoPayload ''2025-06-06T17:00:00Z'' ''1234'')))
       = Inr ''06/06/2025 10:00:00 AM''
   \<and> (\<exists>r row. doPost_p0 demoHost (Inr demoPins) (Inr demoLog)
                  (demoEvent ''2025-06-06T17:00:00Z'' ''1234'')
                = (r, Inr (demoLog[0 := appendRow (demoLog ! 0) row])))
   \<and> (\<exists>r row. doPost_v2 demoHost (Inr demoPins) (Inr demoLog)
                  (demoEvent ''2025-06-06T17:00:00Z'' ''1234'')
                = (r, Inr (demoLog[0 := appendRow (ensureHeaders_v2 demoHost (demoLog ! 0)) row])))"
proof -
  note h = demoEvent_posts[of "''2025-06-06T17:00:00Z''" "''1234''"] demoLog_sheet
  have t: "formatLA demoHost
        (newDate demoHost (timestampOf demoHost (demoPayload ''2025-06-06T17:00:00Z'' ''1234'')))
       = Inr ''06/06/2025 10:00:00 AM''"
    by (simp add: demo_time demo_formatLA)
  note c = every_post_appends_one_row[OF h, of demoHost "Inr demoPins"]
  from c have c1: "\<exists>r row. doPost_p0 demoHost (Inr demoPins) (Inr demoLog)
                  (demoEvent ''2025-06-06T17:00:00Z'' ''1234'')
                = (r, Inr (demoLog[0 := appendRow (demoLog ! 0) row]))"
    unfolding Let_def by blast
  from c t have c2: "\<exists>r row. doPost_v2 demoHost (Inr demoPins) (Inr demoLog)
                  (demoEvent ''2025-06-06T17:00:00Z'' ''1234'')
                = (r, Inr (demoLog[0 := appendRow (ensureHeaders_v2 demoHost (demoLog ! 0)) row]))"
    unfolding Let_def by blast
  from h t c1 c2 show ?thesis by (intro conjI)
qed

theorem invalid_pin_never_duplicate_witness:
  "\<not> isPreflight (demoEvent ''2025-06-06T17:00:00Z'' ''wrong'')
   \<and> postData (demoEvent ''2025-06-06T17:00:00Z'' ''wrong'')
       = Some (Payload (demoPayload ''2025-06-06T17:00:00Z'' ''wrong''))
   \<and> \<not> isPreflight (demoEvent ''2025-06-06T17:00:10Z'' ''wrong'')
   \<and> postData (demoEvent ''2025-06-06T17:00:10Z'' ''wrong'')
       = Some (Payload (demoPayload ''2025-06-06T17:00:10Z'' ''wrong''))
   \<and> getSheetByName demoLog ''Sheet1'' = Some 0
   \<and> \<not> inlinePinCheck demoHost (Inr demoPins) ''PINs''
         (pinOf (demoPayload ''2025-06-06T17:00:00Z'' ''wrong''))
   \<and> \<not> inlinePinCheck demoHost (Inr demoPins) ''PINs''
         (pinOf (demoPayload ''2025-06-06T17:00:10Z'' ''wrong''))
   \<and> \<not> inlinePinCheck demoHost (Inr demoPins) ''Sheet1''
         (pinOf (demoPayload ''2025-06-06T17:00:00Z'' ''wrong''))
   \<and> \<not> inlinePinCheck demoHost (Inr demoPins) ''Sheet1''
         (pinOf (demoPayload ''2025-06-06T17:00:10Z'' ''wrong''))
   \<and> formatLA demoHost
        (newDate demoHost (timestampOf demoHost (demoPayload ''2025-06-06T17:00:00Z'' ''wrong'')))
       = Inr ''06/06/2025 10:00:00 AM''
   \<and> formatLA demoHost
        (newDate demoHost (timestampOf demoHost (demoPayload ''2025-06-06T17:00:10Z'' ''wrong'')))
       = Inr ''06/06/2025 10:00:10 AM''
   \<and> fst (doPost_p0 demoHost (Inr demoPins) (Inr demoLog)
            (demoEvent ''2025-06-06T17:00:00Z'' ''wrong'')) = JsonOutput failureBody
   \<and> fst (doPost_p0 demoHost (Inr demoPins)
            (snd (doPost_p0 demoHost (Inr demoPins) (Inr demoLog)
                    (demoEvent ''2025-06-06T17:00:00Z'' ''wrong'')))
            (demoEvent ''2025-06-06T17:00:10Z'' ''wrong'')) = JsonOutput failureBody
   \<and> fst (doPost_v2 demoHost (Inr demoPins) (Inr demoLog)
            (demoEvent ''2025-06-06T17:00:00Z'' ''wrong'')) = JsonOutput failureBody
   \<and> fst (doPost_v2 demoHost (Inr demoPins)
            (snd (doPost_v2 demoHost (Inr demoPins) (Inr demoLog)
                    (demoEvent ''2025-06-06T17:00:00Z'' ''wrong'')))
            (demoEvent ''2025-06-06T17:00:10Z'' ''wrong'')) = JsonOutput failureBody"
proof -
  note h = demoEvent_posts[of "''2025-06-06T17:00:00Z''" "''wrong''"]
    demoEvent_posts[of "''2025-06-06T17:00:10Z''" "''wrong''"] demoLog_sheet
  note w = demo_wrong_pin[of "''2025-06-06T17:00:00Z''"]
    demo_wrong_pin[of "''2025-06-06T17:00:10Z''"]
  have t: "formatLA demoHost
        (newDate demoHost (timestampOf demoHost (demoPayload ''2025-06-06T17:00:00Z'' ''wrong'')))
       = Inr ''06/06/2025 10:00:00 AM''"
    "formatLA demoHost
        (newDate demoHost (timestampOf demoHost (demoPayload ''2025-06-06T17:00:10Z'' ''wrong'')))
       = Inr ''06/06/2025 10:00:10 AM''"
    by (simp_all add: demo_time demo_formatLA)
  from invalid_pin_never_duplicate[OF h, of demoHost "Inr demoPins"
      "''06/06/2025 10:00:00 AM''" "''06/06/2025 10:00:10 AM''"] w t
  have "fst (doPost_p0 demoHost (Inr demoPins) (Inr demoLog)
            (demoEvent ''2025-06-06T17:00:00Z'' ''wrong'')) = JsonOutput failureBody
   \<and> fst (doPost_p0 demoHost (Inr demoPins)
            (snd (doPost_p0 demoHost (Inr demoPins) (Inr demoLog)
                    (demoEvent ''2025-06-06T17:00:00Z'' ''wrong'')))
            (demoEvent ''2025-06-06T17:00:10Z'' ''wrong'')) = JsonOutput failureBody
   \<and> fst (doPost_v2 demoHost (Inr demoPins) (Inr demoLog)
            (demoEvent ''2025-06-06T17:00:00Z'' ''wrong'')) = JsonOutput failureBody
   \<and> fst (doPost_v2 demoHost (Inr demoPins)
            (snd (doPost_v2 demoHost (Inr demoPins) (Inr demoLog)
                    (demoEvent ''2025-06-06T17:00:00Z'' ''wrong'')))
            (demoEvent ''2025-06-06T17:00:10Z'' ''wrong'')) = JsonOutput failureBody"
    by (simp add: Let_def)
  with h w t show ?thesis by (intro conjI) simp_all
qed

theorem pin_store_failure_is_invalid_pin_witness:
  "\<not> isPreflight (demoEvent ''2025-06-06T17:00:00Z'' ''1234'')
   \<and> postData (demoEvent ''2025-06-06T17:00:00Z'' ''1234'')
       = Some (Payload (demoPayload ''2025-06-06T17:00:00Z'' ''1234''))
   \<and> getSheetByName demoLog ''Sheet1'' = Some 0
   \<and> formatLA demoHost
        (newDate demoHost (timestampOf demoHost (demoPayload ''2025-06-06T17:00:00Z'' ''1234'')))
       = Inr ''06/06/2025 10:00:00 AM''
   \<and> fst (doPost_p0 demoHost (Inl (Exn ''Exception: no access'')) (Inr demoLog)
            (demoEvent ''2025-06-06T17:00:00Z'' ''1234'')) = JsonOutput failureBody
   \<and> fst (doPost_v2 demoHost (Inl (Exn ''Exception: no access'')) (Inr demoLog)
            (demoEvent ''2025-06-06T17:00:00Z'' ''1234'')) = JsonOutput failureBody"
proof -
  note h = demoEvent_posts[of "''2025-06-06T17:00:00Z''" "''1234''"] demoLog_sheet
  have t: "formatLA demoHost
        (newDate demoHost (timestampOf demoHost (demoPayload ''2025-06-06T17:00:00Z'' ''1234'')))
       = Inr ''06/06/2025 10:00:00 AM''"
    by (simp add: demo_time demo_formatLA)
  from pin_store_failure_is_invalid_pin[of demoHost "Exn ''Exception: no access''" _
      "demoEvent ''2025-06-06T17:00:00Z'' ''1234''" "demoPayload ''2025-06-06T17:00:00Z'' ''1234''"
      demoLog 0 "''06/06/2025 10:00:00 AM''"] h t
  have "fst (doPost_p0 demoHost (Inl (Exn ''Exception: no access'')) (Inr demoLog)
            (demoEvent ''2025-06-06T17:00:00Z'' ''1234'')) = JsonOutput failureBody
   \<and> fst (doPost_v2 demoHost (Inl (Exn ''Exception: no access'')) (Inr demoLog)
            (demoEvent ''2025-06-06T17:00:00Z'' ''1234'')) = JsonOutput failureBody"
    by simp
  with h t show ?thesis by (intro conjI) simp_all
qed

section \<open>The duplicate scan\<close>

lemma duplicateScan_closed_form: "duplicateScan P u currentTime rows = scanFinds P u currentTime rows"
proof (induction rows)
  case Nil
  then show ?case by (simp add: scanFinds_def)
next
  case (Cons row rows)
  show ?case
  proof (cases "hasTime P row")
    case False
    with Cons show ?thesis
      by (auto simp: scanFinds_def hasTime_def Let_def split: option.splits)
  next
    case True
    then obtain rowTime where t: "truthy (row ! 1)" "newDate P (row ! 1) = Some rowTime"
      by (auto simp: hasTime_def)
    with True Cons show ?thesis
      by (simp add: scanFinds_def rowTooOld_def Let_def)
  qed
qed

lemma respond_duplicate: "(respond v dup m = JsonOutput (duplicateBody m)) = (v \<and> dup)"
  by (simp add: respond_def duplicateBody_def failureBody_def successBody_def)

lemma doPost_ar_fields:
  "\<exists>b. fst (doPost_ar P ps st e) = TextOutput b
     \<or> (\<exists>kvs. fst (doPost_ar P ps st e) = JsonOutput kvs \<and> length kvs \<noteq> 2)"
  by (auto simp: doPost_ar_def doPost_ar_body_def handleCors_pl_def Let_def
      split: sum.splits option.splits body.splits prod.splits)

text \<open>
  What the scan amounts to in the two URL logging handlers. On the logging path the handler
  answers with the duplicate response exactly when the PIN validated and the scan finds the
  URL in the first cell of a row, reading the second cell of each row as its time. The
  handler of the access request script itself, which logs through \<open>logAccessRequest\<close>, never
  answers with the duplicate response.
\<close>

lemma duplicate_response_iff_scan:
  assumes "\<not> isPreflight e" and "postData e = Some (Payload d)"
    and "getSheetByName ss ''Sheet1'' = Some i"
  shows "((fst (doPost_p0 P ps (Inr ss) e)
            = JsonOutput (duplicateBody ''URL already requested within last 5 minutes.''))
          = (inlinePinCheck P ps ''PINs'' (pinOf d)
             \<and> scanFinds P (urlOf d) (newDate P (timestampOf P d)) (rev (lastRows (ss ! i)))))
       \<and> (formatLA P (newDate P (timestampOf P d)) = Inr ts \<longrightarrow>
           ((fst (doPost_v2 P ps (Inr ss) e)
              = JsonOutput (duplicateBody ''URL already requested within last 1 minute.''))
            = (inlinePinCheck P ps ''Sheet1'' (pinOf d)
               \<and> scanFinds P (urlOf d) (newDate P (timestampOf P d))
                    (rev (lastRows (ensureHeaders_v2 P (ss ! i)))))))
       \<and> fst (doPost_ar P ps' st' e') \<noteq> JsonOutput (duplicateBody m)"
proof (intro conjI impI)
  show "(fst (doPost_p0 P ps (Inr ss) e)
            = JsonOutput (duplicateBody ''URL already requested within last 5 minutes.''))
          = (inlinePinCheck P ps ''PINs'' (pinOf d)
             \<and> scanFinds P (urlOf d) (newDate P (timestampOf P d)) (rev (lastRows (ss ! i))))"
    using doPost_p0_logged[OF assms, of P ps]
    by (auto simp: Let_def respond_duplicate isDuplicate_def duplicateScan_closed_form)
next
  assume "formatLA P (newDate P (timestampOf P d)) = Inr ts"
  from doPost_v2_logged[OF assms this, of ps]
  show "(fst (doPost_v2 P ps (Inr ss) e)
              = JsonOutput (duplicateBody ''URL already requested within last 1 minute.''))
            = (inlinePinCheck P ps ''Sheet1'' (pinOf d)
               \<and> scanFinds P (urlOf d) (newDate P (timestampOf P d))
                    (rev (lastRows (ensureHeaders_v2 P (ss ! i)))))"
    by (auto simp: Let_def respond_duplicate isDuplicate_def duplicateScan_closed_form)
next
  show "fst (doPost_ar P ps' st' e') \<noteq> JsonOutput (duplicateBody m)"
    using doPost_ar_fields[of P ps' st' e'] by (auto simp: duplicateBody_def)
qed

section \<open>The duplicate scan on concrete logs\<close>

lemmas sheet_eval = getSheetByName_def getLastRow_def getLastColumn_def dropTrailing_def
  rowContent_def isBlank_def blankCell_def cellAt_def getRowValues_def getColumnValues_def
  getValues_def lastRows_def appendRow_def upt_rec

lemmas string_eval = trim_def isSpace_def isDigit_def

lemmas case_eval = toLowerCase_def toUpperCase_def lowerChar_def upperChar_def upperLetters_def
  lowerLetters_def upperAccented_def lowerAccented_def startsWith_def

lemma demo_fields:
  "urlOf (demoPayload ts p) = JStr ''https://example.com''"
  "titleOf (demoPayload ts p) = JStr ''Ex''"
  "userEmailOf (demoPayload ts p) = JStr ''a@b.com''"
  "userIdOf (demoPayload ts p) = JStr ''Unknown''"
  "ts \<noteq> [] \<Longrightarrow> timestampOf P (demoPayload ts p) = JStr ts"
  by (simp_all add: urlOf_def titleOf_def userEmailOf_def userIdOf_def timestampOf_def
      demoPayload_def orDefault_def)

lemma demoLog_appended:
  "appendRow (demoLog ! 0) (row_p0 demoHost (demoPayload ''2025-06-06T17:00:00Z'' p) s)
     = loggedOnce (if p = [] then ''Not Provided'' else p) s ! 0"
  by (simp add: row_p0_def demo_fields demo_pinOf loggedOnce_def demoLog_def sheet_eval)

lemma loggedOnce_reached:
  "snd (doPost_p0 demoHost (Inr demoPins) (Inr demoLog) (demoEvent ''2025-06-06T17:00:00Z'' ''wrong''))
     = Inr (loggedOnce ''wrong'' ''Failed (Invalid PIN)'')"
  "snd (doPost_p0 demoHost (Inr demoPins) (Inr demoLog) (demoEvent ''2025-06-06T17:00:00Z'' ''1234''))
     = Inr (loggedOnce ''1234'' ''Success (Valid PIN)'')"
proof -
  have one: "demoLog[0 := sh] = [sh]" for sh
    by (simp add: demoLog_def)
  have rows: "lastRows (demoLog ! 0) = []"
    by (simp add: demoLog_def sheet_eval)
  show "snd (doPost_p0 demoHost (Inr demoPins) (Inr demoLog)
          (demoEvent ''2025-06-06T17:00:00Z'' ''wrong''))
     = Inr (loggedOnce ''wrong'' ''Failed (Invalid PIN)'')"
    using demo_wrong_pin(1)[of "''2025-06-06T17:00:00Z''"]
    by (simp add: doPost_p0_logged[OF demoEvent_posts demoLog_sheet] Let_def isDuplicate_def
        status_p0_def demoLog_appended one) (simp add: loggedOnce_def)
  show "snd (doPost_p0 demoHost (Inr demoPins) (Inr demoLog)
          (demoEvent ''2025-06-06T17:00:00Z'' ''1234''))
     = Inr (loggedOnce ''1234'' ''Success (Valid PIN)'')"
    using demo_right_pin(1)[of "''2025-06-06T17:00:00Z''"]
    by (simp add: doPost_p0_logged[OF demoEvent_posts demoLog_sheet] Let_def isDuplicate_def
        status_p0_def demoLog_appended one rows) (simp add: loggedOnce_def)
qed

lemma loggedOnce_sheet: "getSheetByName (loggedOnce p s) ''Sheet1'' = Some 0"
  by (simp add: getSheetByName_def loggedOnce_def)

lemma loggedOnce_rows:
  "lastRows (loggedOnce p s ! 0)
     = [[JStr ''https://example.com'', JStr ''Ex'', JStr ''2025-06-06T17:00:00Z'',
         JStr ''a@b.com'', JStr ''Unknown'']]"
  by (simp add: loggedOnce_def sheet_eval)

lemmas scan_eval = scanFinds_def hasTime_def rowTooOld_def tooOld_def cooldownMs_def
  claimedDuplicate_def withinCooldown_def demo_defs

lemma demoLog_v2_sheet: "getSheetByName demoLog_v2 ''Sheet1'' = Some 0"
  by (simp add: getSheetByName_def demoLog_v2_def)

lemma loggedOnce_v2_sheet: "getSheetByName loggedOnce_v2 ''Sheet1'' = Some 0"
  by (simp add: getSheetByName_def loggedOnce_v2_def)

lemma demoLog_v2_headers:
  "ensureHeaders_v2 demoHost (demoLog_v2 ! 0) = demoLog_v2 ! 0"
  "ensureHeaders_v2 demoHost (loggedOnce_v2 ! 0) = loggedOnce_v2 ! 0"
  by (simp_all add: ensureHeaders_v2_def headersMatch_v2_def expectedHeaders_v2_def
      demoLog_v2_def loggedOnce_v2_def sheet_eval case_eval string_eval)

lemma demoLog_v2_rows: "lastRows (demoLog_v2 ! 0) = []"
  by (simp add: demoLog_v2_def sheet_eval)

lemma loggedOnce_v2_rows:
  "lastRows (loggedOnce_v2 ! 0)
     = [[JStr ''06/06/2025 10:00:00 AM'', JStr ''a@b.com'', JStr ''Ex'',
         JStr ''https://example.com'', JStr ''1234'']]"
  by (simp add: loggedOnce_v2_def sheet_eval)

lemma demoLog_v2_appended:
  "[appendRow (demoLog_v2 ! 0)
      (row_v2 ''06/06/2025 10:00:00 AM'' (demoPayload ''2025-06-06T17:00:00Z'' ''1234'')
         ''Valid PIN'')]
     = loggedOnce_v2"
  by (simp add: row_v2_def demo_fields demo_pinOf loggedOnce_v2_def demoLog_v2_def sheet_eval)

lemma first_request_p0:
  "doPost_p0 demoHost (Inr demoPins) (Inr demoLog) (demoEvent ''2025-06-06T17:00:00Z'' ''1234'')
     = (JsonOutput successBody, Inr (loggedOnce ''1234'' ''Success (Valid PIN)''))"
proof -
  have one: "demoLog[0 := sh] = [sh]" for sh
    by (simp add: demoLog_def)
  have rows: "lastRows (demoLog ! 0) = []"
    by (simp add: demoLog_def sheet_eval)
  show ?thesis
    using demo_right_pin(1)[of "''2025-06-06T17:00:00Z''"]
    by (simp add: doPost_p0_logged[OF demoEvent_posts demoLog_sheet] Let_def isDuplicate_def
        status_p0_def demoLog_appended one rows respond_def) (simp add: loggedOnce_def)
qed

lemma first_request_v2:
  "doPost_v2 demoHost (Inr demoPins) (Inr demoLog_v2) (demoEvent ''2025-06-06T17:00:00Z'' ''1234'')
     = (JsonOutput successBody, Inr loggedOnce_v2)"
proof -
  have one: "demoLog_v2[0 := sh] = [sh]" for sh
    by (simp add: demoLog_v2_def)
  have t: "formatLA demoHost
        (newDate demoHost (timestampOf demoHost (demoPayload ''2025-06-06T17:00:00Z'' ''1234'')))
       = Inr ''06/06/2025 10:00:00 AM''"
    by (simp add: demo_time demo_formatLA)
  show ?thesis
    using demo_right_pin(2)[of "''2025-06-06T17:00:00Z''"]
    by (simp add: doPost_v2_logged[OF demoEvent_posts demoLog_v2_sheet t] Let_def isDuplicate_def
        status_v2_def demoLog_v2_headers demoLog_v2_rows one respond_def demoLog_v2_appended)
qed

lemma second_request_p0:
  "fst (doPost_p0 demoHost (Inr demoPins) (Inr (loggedOnce ''1234'' ''Success (Valid PIN)''))
         (demoEvent ''2025-06-06T17:00:10Z'' ''1234''))
     = JsonOutput successBody"
  using demo_right_pin(1)[of "''2025-06-06T17:00:10Z''"]
  by (simp add: doPost_p0_logged[OF demoEvent_posts loggedOnce_sheet] Let_def respond_def
      isDuplicate_def duplicateScan_closed_form loggedOnce_rows demo_fields demo_time scan_eval)

lemma second_request_v2:
  "fst (doPost_v2 demoHost (Inr demoPins) (Inr loggedOnce_v2)
         (demoEvent ''2025-06-06T17:00:10Z'' ''1234''))
     = JsonOutput successBody"
proof -
  have t: "formatLA demoHost
        (newDate demoHost (timestampOf demoHost (demoPayload ''2025-06-06T17:00:10Z'' ''1234'')))
       = Inr ''06/06/2025 10:00:10 AM''"
    by (simp add: demo_time demo_formatLA)
  have dup: "\<not> isDuplicate demoHost (loggedOnce_v2 ! 0) True
        (urlOf (demoPayload ''2025-06-06T17:00:10Z'' ''1234''))
        (newDate demoHost (timestampOf demoHost (demoPayload ''2025-06-06T17:00:10Z'' ''1234'')))"
    by (simp add: isDuplicate_def duplicateScan_closed_form loggedOnce_v2_rows demo_fields
        demo_time scan_eval)
  show ?thesis
    using demo_right_pin(2)[of "''2025-06-06T17:00:10Z''"] dup
    by (simp add: doPost_v2_logged[OF demoEvent_posts loggedOnce_v2_sheet t] Let_def respond_def
        demoLog_v2_headers)
qed

text \<open>
  C2 fails on the code, by a slip of the code. The handler of part 000 writes the URL, the
  title and the time of a request into the first three cells of its row, and the second
  handler writes the time, the e-mail address, the title and the URL; the scan of both takes
  the first cell of a row for the URL and the second cell for the time. So in part 000 the
  scan reads the title as the time, and in the second handler it reads the time as the URL
  and the e-mail address as the time. A request with a valid PIN is logged by the handler;
  the same request, sent again ten seconds later, is answered as a success and not as a
  duplicate, although the row the handler wrote holds the same URL and a time ten seconds
  before.
\<close>

theorem repeated_request_not_duplicate:
  "doPost_p0 demoHost (Inr demoPins) (Inr demoLog) (demoEvent ''2025-06-06T17:00:00Z'' ''1234'')
     = (JsonOutput successBody, Inr (loggedOnce ''1234'' ''Success (Valid PIN)''))
   \<and> fst (doPost_p0 demoHost (Inr demoPins) (Inr (loggedOnce ''1234'' ''Success (Valid PIN)''))
            (demoEvent ''2025-06-06T17:00:10Z'' ''1234''))
       = JsonOutput successBody
   \<and> claimedDuplicate demoHost 0 2 (lastRows (loggedOnce ''1234'' ''Success (Valid PIN)'' ! 0))
        (JStr ''https://example.com'') (Some 1749229210000)
   \<and> doPost_v2 demoHost (Inr demoPins) (Inr demoLog_v2)
        (demoEvent ''2025-06-06T17:00:00Z'' ''1234'')
       = (JsonOutput successBody, Inr loggedOnce_v2)
   \<and> fst (doPost_v2 demoHost (Inr demoPins) (Inr loggedOnce_v2)
            (demoEvent ''2025-06-06T17:00:10Z'' ''1234''))
       = JsonOutput successBody"
proof (intro conjI)
  show "claimedDuplicate demoHost 0 2 (lastRows (loggedOnce ''1234'' ''Success (Valid PIN)'' ! 0))
        (JStr ''https://example.com'') (Some 1749229210000)"
    by (simp add: loggedOnce_rows scan_eval)
qed (simp_all only: first_request_p0 second_request_p0 first_request_v2 second_request_v2)

section \<open>PIN validation\<close>





lemma displayValue_blank [simp]: "displayValue P blankCell = []"
  by (simp add: displayValue_def blankCell_def)






section \<open>PIN validation on concrete stores\<close>

lemma demoPins_sheet: "getSheetByName demoPins ''PINs'' = Some 0"
  by (simp add: getSheetByName_def demoPins_def)

lemma demoPins_header: "headerText demoHost (demoPins ! 0) (Suc 0) (Suc 0) = ''pin''"
  by (simp add: headerText_def demoPins_def sheet_eval case_eval)

lemma demoPins_size: "getLastRow (demoPins ! 0) = 3" "getLastColumn (demoPins ! 0) = 1"
  by (simp_all add: demoPins_def sheet_eval)

lemma demoPins_isPinSheet_pl: "isPinSheet_pl demoHost (demoPins ! 0)"
  by (simp add: isPinSheet_pl_def demoPins_size demoPins_header upt_rec case_eval)

lemma demoPins_isPinSheet_ar: "isPinSheet_ar demoHost (demoPins ! 0)"
  by (simp add: isPinSheet_ar_def demoPins_size demoPins_header case_eval)

lemma demoPins_found_pl: "findPinSheet_pl demoHost demoPins = Some 0"
  by (simp add: findPinSheet_pl_def findSheetByNames_def possibleNames_pl_def demoPins_sheet
      demoPins_isPinSheet_pl)

lemma demoPins_found_ar: "findPinSheet_ar demoHost demoPins = Some 0"
  by (simp add: findPinSheet_ar_def findSheetByNames_def possibleNames_ar_def demoPins_sheet
      demoPins_isPinSheet_ar)

lemma demoPins_pinList_pl: "pinList_pl demoHost (demoPins ! 0) = [''1234'', ''abc'']"
  by (simp add: pinList_pl_def analyzePinSheetStructure_def Let_def demoPins_size
      getColumnDisplayValues_def displayValue_def)
     (simp add: demoPins_def sheet_eval case_eval string_eval displayValue_def)

lemma demoPins_pinList_ar: "pinList_ar demoHost (demoPins ! 0) = [''1234'', ''abc'']"
  by (simp add: pinList_ar_def startRow_ar_def Let_def demoPins_size
      getColumnDisplayValues_def displayValue_def)
     (simp add: demoPins_def sheet_eval case_eval string_eval displayValue_def)

lemma demoPins_validatePin:
  "validatePin demoHost (Inr demoPins) (JStr c) = (c \<noteq> [] \<and> validatePin_loop (trim c) [''1234'', ''abc''])"
  by (simp add: validatePin_def demoPins_found_ar Let_def demoPins_pinList_ar demoPins_size)
     (simp add: startRow_ar_def demoPins_def sheet_eval case_eval)

lemma demoPins_kept: "getOrCreatePinSheet demoHost demoPins = (Some 0, demoPins)"
  by (simp add: getOrCreatePinSheet_def demoPins_found_pl)

lemma demoPins_structure:
  "startRow (analyzePinSheetStructure (demoPins ! 0)) = 2"
  "endRow (analyzePinSheetStructure (demoPins ! 0)) = 3"
  by (simp_all add: analyzePinSheetStructure_def Let_def demoPins_size)
     (simp_all add: demoPins_def sheet_eval case_eval string_eval)

lemma demoPins_validatePinFromSheet:
  "validatePinFromSheet demoHost (Inr demoPins) (JStr c)
     = (if validatePinFromSheet_loop (trim c) [''1234'', ''abc'']
        then \<lparr>isValid = True, message = ''PIN validated successfully.''\<rparr>
        else \<lparr>isValid = False, message = ''Invalid PIN. Please check your PIN and try again.''\<rparr>,
        Inr demoPins)"
  by (simp add: validatePinFromSheet_def demoPins_kept Let_def demoPins_structure
      demoPins_pinList_pl)






section \<open>What PIN validation does to the PIN store\<close>

lemma inserted_example_sheet:
  "(ss @ [\<lparr>sname = PREFERRED_PIN_SHEET_NAME, grid = []\<rparr>])[length ss := examplePinSheet]
     = ss @ [examplePinSheet]"
  by simp







section \<open>The access log writer\<close>

lemma firstSome_Some: "firstSome f xs = Some y \<Longrightarrow> \<exists>x\<in>set xs. f x = Some y"
  by (induction xs) (auto split: option.splits)

lemma findIndex_None: "findIndex p xs = None \<Longrightarrow> x \<in> set xs \<Longrightarrow> \<not> p x"
  by (induction xs) (auto split: if_splits)

lemma findAccessRequestSheet_Some:
  assumes "findAccessRequestSheet P ss = Some i"
  shows "i < length ss"
proof (cases "firstSome (getSheetByName ss) possibleNames_access")
  case (Some j)
  with assms have "j = i" by (simp add: findAccessRequestSheet_def)
  with Some firstSome_Some[OF Some] getSheetByName_Some show ?thesis by blast
next
  case None
  with assms show ?thesis
    by (auto simp: findAccessRequestSheet_def split: option.splits dest: findIndex_Some)
qed

lemma findAccessRequestSheet_None:
  assumes "findAccessRequestSheet P ss = None"
  shows "insertSheet ss PREFERRED_ACCESS_SHEET_NAME
     = Inr (ss @ [\<lparr>sname = PREFERRED_ACCESS_SHEET_NAME, grid = []\<rparr>])"
proof -
  from assms have none: "findIndex (\<lambda>sh. list_ex (\<lambda>n. toLowerCase (sname sh) = toLowerCase n)
      possibleNames_access) ss = None"
    by (auto simp: findAccessRequestSheet_def split: option.splits)
  have "\<not> toLowerCase (sname sh) = toLowerCase PREFERRED_ACCESS_SHEET_NAME" if "sh \<in> set ss" for sh
    using findIndex_None[OF none that]
    by (simp add: possibleNames_access_def PREFERRED_ACCESS_SHEET_NAME_def)
  then show ?thesis
    by (auto simp: insertSheet_def list_ex_iff)
qed

text \<open>The writer always gets its sheet: a sheet of the spreadsheet, or the one it inserts.\<close>

lemma getOrCreateAccessRequestSheet_total:
  "\<exists>i ss1. getOrCreateAccessRequestSheet P ss = Inr (i, ss1) \<and> i < length ss1"
proof (cases "findAccessRequestSheet P ss")
  case None
  then show ?thesis
    by (simp add: getOrCreateAccessRequestSheet_def findAccessRequestSheet_None)
next
  case (Some i)
  then show ?thesis
    by (simp add: getOrCreateAccessRequestSheet_def findAccessRequestSheet_Some)
qed

lemma logAccessRequest_store:
  assumes "getOrCreateAccessRequestSheet P ss = Inr (i, ss1)" and "i < length ss1"
  shows "\<exists>ss2. snd (logAccessRequest P (Inr ss) rd) = Inr ss2 \<and> i < length ss2
     \<and> ss2 ! i = logAccessRequest_sheet P (ss1 ! i) rd"
  using assms by (simp add: logAccessRequest_def)

subsection \<open>Row 1\<close>

lemma length_getRowValues [simp]: "length (getRowValues sh r c n) = n"
  by (simp add: getRowValues_def)

lemma headers_kept:
  assumes "\<not> headersNeedUpdate sh"
  shows "getRowValues sh (Suc 0) (Suc 0) 8 = map JStr expectedHeaders"
    and "8 < c \<Longrightarrow> cellAt sh (Suc 0) c = blankCell"
    and "Suc 0 \<le> getLastRow sh"
proof -
  from assms have cur: "currentHeaders sh = map JStr expectedHeaders"
    and col: "getLastColumn sh \<le> 8"
    by (auto simp: headersNeedUpdate_def)
  have "length (map JStr expectedHeaders) = 8"
    by (simp add: expectedHeaders_def)
  with cur have len: "length (currentHeaders sh) = 8" by simp
  then have filled: "getLastRow sh \<ge> 1 \<and> getLastColumn sh > 0"
    by (auto simp: currentHeaders_def split: if_splits)
  with len have "min (getLastColumn sh) 8 = 8"
    by (simp add: currentHeaders_def)
  with cur filled show "getRowValues sh (Suc 0) (Suc 0) 8 = map JStr expectedHeaders"
    by (simp add: currentHeaders_def)
  from filled show "Suc 0 \<le> getLastRow sh" by simp
  show "cellAt sh (Suc 0) c = blankCell" if "8 < c"
    using that col by (intro cellAt_beyond_lastColumn) simp
qed

lemma cleared_row:
  "cellAt (if getLastColumn sh > 0
           then clearContent sh (Suc 0) (Suc 0) (Suc 0) (max (getLastColumn sh) 8) else sh)
     (Suc 0) c = blankCell"
proof (cases "getLastColumn sh < c")
  case True
  then show ?thesis
    by (simp add: cellAt_clearContent cellAt_beyond_lastColumn)
next
  case False
  then show ?thesis
    by (cases "c = 0") (auto simp: cellAt_clearContent)
qed

lemma headers_repaired:
  shows "getRowValues (repairHeaders sh) (Suc 0) (Suc 0) 8 = map JStr expectedHeaders"
    and "8 < c \<Longrightarrow> cellAt (repairHeaders sh) (Suc 0) c = blankCell"
    and "Suc 0 \<le> getLastRow (repairHeaders sh)"
proof -
  have len: "length (map JStr expectedHeaders) = 8"
    by (simp add: expectedHeaders_def)
  define sh1 where "sh1 = (if getLastColumn sh > 8
      then clearContent sh 1 9 (getMaxRows sh) (getLastColumn sh - 8) else sh)"
  define sh2 where "sh2 = (if getLastColumn sh1 > 0
      then clearContent sh1 (Suc 0) (Suc 0) (Suc 0) (max (getLastColumn sh1) 8) else sh1)"
  have rep: "repairHeaders sh = setRowValues sh2 (Suc 0) (Suc 0) (map JStr expectedHeaders)"
    by (simp add: repairHeaders_def Let_def sh1_def sh2_def)
  have blank: "cellAt sh2 (Suc 0) c = blankCell" for c
    unfolding sh2_def by (rule cleared_row)
  show "getRowValues (repairHeaders sh) (Suc 0) (Suc 0) 8 = map JStr expectedHeaders"
    using getRowValues_setRowValues[of sh2 "map JStr expectedHeaders"] len by (simp add: rep)
  show "cellAt (repairHeaders sh) (Suc 0) c = blankCell" if "8 < c"
    using that len by (simp add: rep cellAt_setRowValues blank)
  have "cellAt (repairHeaders sh) (Suc 0) (Suc 0) = map JStr expectedHeaders ! 0"
    using len by (simp add: rep cellAt_setRowValues)
  also have "\<dots> = JStr ''Timestamp''"
    by (simp add: expectedHeaders_def)
  finally have "cellAt (repairHeaders sh) (Suc 0) (Suc 0) \<noteq> blankCell"
    by (simp add: blankCell_def)
  then show "Suc 0 \<le> getLastRow (repairHeaders sh)"
    by (rule filled_cell_row)
qed

lemma cellAt_autoFix_row1:
  "cellAt (autoFixTimestampFormats P sh) (Suc 0) c = cellAt sh (Suc 0) c"
  by (simp add: autoFixTimestampFormats_def Let_def cellAt_setColumnValues)

lemma logAccessRequest_sheet_row1:
  "getRowValues (logAccessRequest_sheet P sh rd) (Suc 0) (Suc 0) 8 = map JStr expectedHeaders"
  "8 < c \<Longrightarrow> cellAt (logAccessRequest_sheet P sh rd) (Suc 0) c = blankCell"
proof -
  define sh1 where "sh1 = (if headersNeedUpdate sh then repairHeaders sh else sh)"
  have h: "getRowValues sh1 (Suc 0) (Suc 0) 8 = map JStr expectedHeaders"
    and b: "\<And>c. 8 < c \<Longrightarrow> cellAt sh1 (Suc 0) c = blankCell"
    and r: "Suc 0 \<le> getLastRow sh1"
    using headers_kept[where sh = sh] headers_repaired[where sh = sh] by (auto simp: sh1_def)
  have cell: "cellAt (logAccessRequest_sheet P sh rd) (Suc 0) c = cellAt sh1 (Suc 0) c" for c
    using r by (simp add: logAccessRequest_sheet_def Let_def sh1_def[symmetric]
        cellAt_autoFix_row1 cellAt_appendRow_old)
  show "getRowValues (logAccessRequest_sheet P sh rd) (Suc 0) (Suc 0) 8 = map JStr expectedHeaders"
    using h by (simp add: getRowValues_def cell)
  show "cellAt (logAccessRequest_sheet P sh rd) (Suc 0) c = blankCell" if "8 < c"
    using that b by (simp add: cell)
qed

text \<open>
  C6. After \<open>logAccessRequest\<close> has run on a spreadsheet it could open, row 1 of the access
  request sheet, the sheet it found or created, holds the eight expected headers in columns
  A to H and nothing in the columns after them.
\<close>

theorem header_row_after_logging:
  "\<exists>i ss1 ss2. getOrCreateAccessRequestSheet P ss = Inr (i, ss1)
     \<and> snd (logAccessRequest P (Inr ss) rd) = Inr ss2 \<and> i < length ss2
     \<and> getRowValues (ss2 ! i) 1 1 8 = map JStr expectedHeaders
     \<and> (\<forall>c. 8 < c \<longrightarrow> cellAt (ss2 ! i) 1 c = blankCell)"
proof -
  from getOrCreateAccessRequestSheet_total obtain i ss1
    where g: "getOrCreateAccessRequestSheet P ss = Inr (i, ss1)" "i < length ss1"
    by blast
  from logAccessRequest_store[OF g] obtain ss2
    where s: "snd (logAccessRequest P (Inr ss) rd) = Inr ss2" "i < length ss2"
      "ss2 ! i = logAccessRequest_sheet P (ss1 ! i) rd"
    by blast
  from g(1) s show ?thesis
    by (intro exI[of _ i] exI[of _ ss1] exI[of _ ss2]) (simp add: logAccessRequest_sheet_row1)
qed

subsection \<open>The appended row\<close>

lemma rowData_shape: "length (rowData P rd) = 8" "rowContent (rowData P rd) \<noteq> []"
proof -
  show "length (rowData P rd) = 8" by (simp add: rowData_def)
  have "rowContent (rowData P rd) = rowData P rd"
    by (rule rowContent_last_filled) (simp_all add: rowData_def isBlank_def)
  then show "rowContent (rowData P rd) \<noteq> []" by (simp add: rowData_def)
qed

lemma length_getColumnValues [simp]: "length (getColumnValues sh r c n) = n"
  by (simp add: getColumnValues_def)

text \<open>
  The timestamp repair after the append: the row just appended stays the last row, its first
  cell comes out as the text that \<open>detectAndFixTimestamp\<close> makes of it, and its other cells
  are as they were.
\<close>

lemma autoFix_last_row:
  assumes last: "getLastRow sh = Suc L" and rows: "length (grid sh) = Suc L" and "1 \<le> L"
    and filled: "cellAt sh (Suc L) k \<noteq> blankCell" and k: "1 < k"
  shows "getLastRow (autoFixTimestampFormats P sh) = Suc L"
    and "cellAt (autoFixTimestampFormats P sh) (Suc L) c
          = (if c = 1 then JStr (detectAndFixTimestamp P (cellAt sh (Suc L) 1))
             else cellAt sh (Suc L) c)"
proof -
  let ?vals = "getColumnValues sh 2 1 (Suc L - 1)"
  let ?fix = "\<lambda>v. if JStr (detectAndFixTimestamp P v) \<noteq> v
                  then JStr (detectAndFixTimestamp P v) else v"
  have own: "?vals ! (L - 1) = cellAt sh (Suc L) 1"
    using \<open>1 \<le> L\<close> by (simp add: getColumnValues_def)
  have mem: "cellAt sh (Suc L) 1 \<in> set ?vals"
    using \<open>1 \<le> L\<close> own nth_mem[of "L - 1" ?vals] by simp
  have cell: "cellAt (autoFixTimestampFormats P sh) (Suc L) c
          = (if c = 1 then JStr (detectAndFixTimestamp P (cellAt sh (Suc L) 1))
             else cellAt sh (Suc L) c)" for c
  proof (cases "list_ex (\<lambda>v. JStr (detectAndFixTimestamp P v) \<noteq> v) ?vals")
    case True
    then have "autoFixTimestampFormats P sh = setColumnValues sh 2 1 (map ?fix ?vals)"
      using last \<open>1 \<le> L\<close> by (simp add: autoFixTimestampFormats_def Let_def)
    then show ?thesis
      using \<open>1 \<le> L\<close> own by (auto simp: cellAt_setColumnValues)
  next
    case False
    then have same: "autoFixTimestampFormats P sh = sh"
      using last by (simp add: autoFixTimestampFormats_def Let_def)
    from False mem have "JStr (detectAndFixTimestamp P (cellAt sh (Suc L) 1)) = cellAt sh (Suc L) 1"
      by (auto simp: list_ex_iff)
    with same show ?thesis by simp
  qed
  have "length (grid (autoFixTimestampFormats P sh)) = Suc L"
    using rows last \<open>1 \<le> L\<close>
    by (simp add: autoFixTimestampFormats_def Let_def length_grid_setColumnValues)
  then have le: "getLastRow (autoFixTimestampFormats P sh) \<le> Suc L"
    using getLastRow_le[of "autoFixTimestampFormats P sh"] by simp
  show "cellAt (autoFixTimestampFormats P sh) (Suc L) c
          = (if c = 1 then JStr (detectAndFixTimestamp P (cellAt sh (Suc L) 1))
             else cellAt sh (Suc L) c)"
    by (rule cell)
  from filled k have "cellAt (autoFixTimestampFormats P sh) (Suc L) k \<noteq> blankCell"
    by (simp add: cell)
  then have "Suc L \<le> getLastRow (autoFixTimestampFormats P sh)"
    by (rule filled_cell_row)
  with le show "getLastRow (autoFixTimestampFormats P sh) = Suc L" by simp
qed

lemma logAccessRequest_sheet_last_row:
  "getRowValues (logAccessRequest_sheet P sh rd) (getLastRow (logAccessRequest_sheet P sh rd)) 1 8
     = JStr (detectAndFixTimestamp P (rowData P rd ! 0)) # tl (rowData P rd)"
proof -
  define sh1 where "sh1 = (if headersNeedUpdate sh then repairHeaders sh else sh)"
  define L where "L = getLastRow sh1"
  define sh2 where "sh2 = appendRow sh1 (rowData P rd)"
  have L: "1 \<le> L"
    using headers_kept(3)[of sh] headers_repaired(3)[of sh] by (auto simp: sh1_def L_def)
  have last2: "getLastRow sh2 = Suc L"
    by (simp add: sh2_def L_def getLastRow_appendRow rowData_shape)
  have rows2: "length (grid sh2) = Suc L"
    using getLastRow_le[of sh1] by (simp add: sh2_def L_def grid_appendRow)
  have new: "cellAt sh2 (Suc L) c
      = (if 1 \<le> c \<and> c \<le> 8 then rowData P rd ! (c - 1) else blankCell)" for c
    by (simp add: sh2_def L_def cellAt_appendRow_new rowData_shape)
  have pending: "cellAt sh2 (Suc L) 6 \<noteq> blankCell"
    by (simp add: new rowData_def blankCell_def)
  have whole: "logAccessRequest_sheet P sh rd = autoFixTimestampFormats P sh2"
    by (simp add: logAccessRequest_sheet_def Let_def sh1_def sh2_def)
  note af = autoFix_last_row[OF last2 rows2 L pending, of P]
  have "getRowValues (autoFixTimestampFormats P sh2) (Suc L) 1 8
      = JStr (detectAndFixTimestamp P (rowData P rd ! 0)) # tl (rowData P rd)"
    by (rule nth_equalityI)
       (auto simp: getRowValues_def af(2) new rowData_shape nth_Cons' nth_tl)
  with af(1) whole show ?thesis by simp
qed

text \<open>
  C5, as the code has it. \<open>logAccessRequest\<close> appends one row of eight cells: the time (the
  current time when the request has none), the PIN (the text NO PIN when the request has
  none), the e-mail, the title, the URL, and PENDING three times. Read back from the last row
  of the sheet when the writer has finished, the cells B to H are as written, and cell A
  holds what the timestamp repair makes of the time written: the same text when that matches
  the readable pattern, in which case the row reads back as written.
\<close>

theorem logged_row_read_back:
  "\<exists>i ss1 ss2. getOrCreateAccessRequestSheet P ss = Inr (i, ss1)
     \<and> snd (logAccessRequest P (Inr ss) rd) = Inr ss2 \<and> i < length ss2
     \<and> getRowValues (ss2 ! i) (getLastRow (ss2 ! i)) 1 8
         = [JStr (detectAndFixTimestamp P
                    (if truthy (rd_timestamp rd) then rd_timestamp rd
                     else JStr (createReadableTimestamp P))),
            if truthy (rd_pin rd) then rd_pin rd else JStr ''NO PIN'',
            rd_userEmail rd, rd_title rd, rd_url rd,
            JStr ''PENDING'', JStr ''PENDING'', JStr ''PENDING'']
     \<and> (\<forall>s. rd_timestamp rd = JStr s \<and> isReadableTimestampFormat s \<longrightarrow>
           getRowValues (ss2 ! i) (getLastRow (ss2 ! i)) 1 8 = rowData P rd)
     \<and> rowData P rd
         = [if truthy (rd_timestamp rd) then rd_timestamp rd
            else JStr (createReadableTimestamp P),
            if truthy (rd_pin rd) then rd_pin rd else JStr ''NO PIN'',
            rd_userEmail rd, rd_title rd, rd_url rd,
            JStr ''PENDING'', JStr ''PENDING'', JStr ''PENDING'']"
proof -
  from getOrCreateAccessRequestSheet_total obtain i ss1
    where g: "getOrCreateAccessRequestSheet P ss = Inr (i, ss1)" "i < length ss1"
    by blast
  from logAccessRequest_store[OF g] obtain ss2
    where s: "snd (logAccessRequest P (Inr ss) rd) = Inr ss2" "i < length ss2"
      "ss2 ! i = logAccessRequest_sheet P (ss1 ! i) rd"
    by blast
  have row: "getRowValues (ss2 ! i) (getLastRow (ss2 ! i)) 1 8
      = JStr (detectAndFixTimestamp P (rowData P rd ! 0)) # tl (rowData P rd)"
    unfolding s(3) by (rule logAccessRequest_sheet_last_row)
  have same: "getRowValues (ss2 ! i) (getLastRow (ss2 ! i)) 1 8 = rowData P rd"
    if "rd_timestamp rd = JStr t \<and> isReadableTimestampFormat t" for t
  proof -
    from that readable_shape[of t] have "truthy (rd_timestamp rd)" by auto
    with that show ?thesis
      unfolding row by (simp add: rowData_def readable_fixed)
  qed
  from g(1) s(1,2) row same show ?thesis
    by (intro exI[of _ i] exI[of _ ss1] exI[of _ ss2]) (simp add: rowData_def)
qed

subsection \<open>The access log writer on a concrete log\<close>

lemma demoLog_found: "findAccessRequestSheet P demoLog = Some 0"
  by (simp add: findAccessRequestSheet_def possibleNames_access_def getSheetByName_def
      demoLog_def)

lemma demoLog_logged:
  "snd (logAccessRequest P (Inr demoLog) rd) = Inr [logAccessRequest_sheet P (demoLog ! 0) rd]"
  by (simp add: logAccessRequest_def getOrCreateAccessRequestSheet_def demoLog_found)
     (simp add: demoLog_def)

text \<open>
  C5 as stated fails on the round trip: a request whose time is the ISO 8601 text
  2025-06-06T17:00:10Z is written with that text in its first cell, and reads back from the
  log with the readable form of the time in its first cell.
\<close>

theorem round_trip_changes_timestamp:
  "snd (logAccessRequest demoHost (Inr demoLog) demoRequest)
     = Inr [logAccessRequest_sheet demoHost (demoLog ! 0) demoRequest]
   \<and> rowData demoHost demoRequest
     = [JStr ''2025-06-06T17:00:10Z'', JStr ''1234'', JStr ''a@b.com'', JStr ''Ex'',
        JStr ''https://example.com'', JStr ''PENDING'', JStr ''PENDING'', JStr ''PENDING'']
   \<and> getRowValues (logAccessRequest_sheet demoHost (demoLog ! 0) demoRequest)
        (getLastRow (logAccessRequest_sheet demoHost (demoLog ! 0) demoRequest)) 1 8
     = [JStr ''Friday, Jun 06, 2025 05:00 PM'', JStr ''1234'', JStr ''a@b.com'', JStr ''Ex'',
        JStr ''https://example.com'', JStr ''PENDING'', JStr ''PENDING'', JStr ''PENDING'']
   \<and> getRowValues (logAccessRequest_sheet demoHost (demoLog ! 0) demoRequest)
        (getLastRow (logAccessRequest_sheet demoHost (demoLog ! 0) demoRequest)) 1 8
     \<noteq> rowData demoHost demoRequest"
proof -
  have written: "rowData demoHost demoRequest
     = [JStr ''2025-06-06T17:00:10Z'', JStr ''1234'', JStr ''a@b.com'', JStr ''Ex'',
        JStr ''https://example.com'', JStr ''PENDING'', JStr ''PENDING'', JStr ''PENDING'']"
    by (simp add: rowData_def demoRequest_def)
  have readback: "getRowValues (logAccessRequest_sheet demoHost (demoLog ! 0) demoRequest)
        (getLastRow (logAccessRequest_sheet demoHost (demoLog ! 0) demoRequest)) 1 8
     = [JStr ''Friday, Jun 06, 2025 05:00 PM'', JStr ''1234'', JStr ''a@b.com'', JStr ''Ex'',
        JStr ''https://example.com'', JStr ''PENDING'', JStr ''PENDING'', JStr ''PENDING'']"
    unfolding logAccessRequest_sheet_last_row written by (simp add: demo_iso)
  from demoLog_logged written readback show ?thesis
    by simp
qed

theorem logged_row_read_back_witness:
  "rd_timestamp (demoRequest\<lparr>rd_timestamp := JStr ''Friday, Jun 06, 2025 05:00 PM''\<rparr>)
     = JStr ''Friday, Jun 06, 2025 05:00 PM''
   \<and> isReadableTimestampFormat ''Friday, Jun 06, 2025 05:00 PM''
   \<and> (\<exists>i ss2. snd (logAccessRequest demoHost (Inr demoLog)
                      (demoRequest\<lparr>rd_timestamp := JStr ''Friday, Jun 06, 2025 05:00 PM''\<rparr>))
                 = Inr ss2
        \<and> getRowValues (ss2 ! i) (getLastRow (ss2 ! i)) 1 8
           = rowData demoHost (demoRequest\<lparr>rd_timestamp := JStr ''Friday, Jun 06, 2025 05:00 PM''\<rparr>))"
proof -
  have h: "rd_timestamp (demoRequest\<lparr>rd_timestamp := JStr ''Friday, Jun 06, 2025 05:00 PM''\<rparr>)
     = JStr ''Friday, Jun 06, 2025 05:00 PM''
     \<and> isReadableTimestampFormat ''Friday, Jun 06, 2025 05:00 PM''"
    by (simp add: demo_readable)
  from logged_row_read_back[of demoHost demoLog
      "demoRequest\<lparr>rd_timestamp := JStr ''Friday, Jun 06, 2025 05:00 PM''\<rparr>"] h
  have "\<exists>i ss2. snd (logAccessRequest demoHost (Inr demoLog)
                      (demoRequest\<lparr>rd_timestamp := JStr ''Friday, Jun 06, 2025 05:00 PM''\<rparr>))
                 = Inr ss2
        \<and> getRowValues (ss2 ! i) (getLastRow (ss2 ! i)) 1 8
           = rowData demoHost (demoRequest\<lparr>rd_timestamp := JStr ''Friday, Jun 06, 2025 05:00 PM''\<rparr>)"
    by blast
  with h show ?thesis by (intro conjI) simp_all
qed

theorem header_row_after_logging_witness:
  "(8::nat) < 9
   \<and> (\<exists>i ss2. snd (logAccessRequest demoHost (Inr demoLog) demoRequest) = Inr ss2
        \<and> getRowValues (ss2 ! i) 1 1 8 = map JStr expectedHeaders
        \<and> cellAt (ss2 ! i) 1 9 = blankCell)"
proof -
  have h: "(8::nat) < 9" by simp
  from header_row_after_logging[of demoHost demoLog demoRequest] h
  have "\<exists>i ss2. snd (logAccessRequest demoHost (Inr demoLog) demoRequest) = Inr ss2
        \<and> getRowValues (ss2 ! i) 1 1 8 = map JStr expectedHeaders
        \<and> cellAt (ss2 ! i) 1 9 = blankCell"
    by blast
  with h show ?thesis by (intro conjI)
qed

section \<open>The responses of the handlers\<close>

lemma respond_isOneOfFour: "isOneOfFour (respond v dup m)"
  by (simp add: isOneOfFour_def respond_def failureBody_def duplicateBody_def successBody_def)

lemma error_isOneOfFour: "isOneOfFour (JsonOutput (errorBody m))"
  by (simp add: isOneOfFour_def errorBody_def failureBody_def successBody_def)

lemma long_body_not_one_of_four:
  "rest \<noteq> [] \<Longrightarrow> \<not> isOneOfFour (JsonOutput ((k1, JStr s) # (k2, JStr m) # rest))"
  by (cases rest) (simp_all add: isOneOfFour_def failureBody_def successBody_def)

lemma doPost_p0_answers:
  assumes "\<not> isPreflight e"
  shows "(\<exists>err. doPost_p0_body P ps st e = Inl err)
     \<or> (\<exists>v dup m st1. doPost_p0_body P ps st e = Inr (respond v dup m, st1))"
  using assms
  by (auto simp: doPost_p0_body_def Let_def isPreflight_def
      split: option.splits body.splits sum.splits)

lemma doPost_v2_answers:
  assumes "\<not> isPreflight e"
  shows "(\<exists>err. doPost_v2_body P ps st e = Inl err)
     \<or> (\<exists>v dup m st1. doPost_v2_body P ps st e = Inr (respond v dup m, st1))"
  using assms
  by (auto simp: doPost_v2_body_def Let_def isPreflight_def
      split: option.splits body.splits sum.splits)

lemma doPost_p1_answers:
  assumes "\<not> isPreflight e"
  shows "doPost_p1 P ps e
       = JsonOutput [(''status'', JStr ''success''), (''message'', JStr ''PIN valid'')]
     \<or> doPost_p1 P ps e = JsonOutput failureBody
     \<or> (\<exists>m. doPost_p1 P ps e = JsonOutput (errorBody m))"
  using assms
  by (auto simp: doPost_p1_def doPost_p1_body_def Let_def isPreflight_def failureBody_def
      split: option.splits body.splits sum.splits)

text \<open>What \<open>logAccessRequest\<close> reports does not depend on the request.\<close>

lemma logAccessRequest_result: "fst (logAccessRequest P st rd) = fst (logAccessRequest P st rd')"
  by (simp add: logAccessRequest_def split: sum.splits prod.splits)

lemma doPost_pl_answer:
  assumes "\<not> isPreflight e" and "postData e = Some (Payload d)"
  shows "fst (doPost_pl P st e) = JsonOutput
     [(''status'',
       JStr (if isValid (fst (validatePinFromSheet P st (orDefault (pin d) (JStr []))))
             then ''success'' else ''error'')),
      (''message'', JStr (message (fst (validatePinFromSheet P st (orDefault (pin d) (JStr [])))))),
      (''pin'', orDefault (pin d) (JStr [])),
      (''timestamp'', JStr (toISOString P (clock P)))]"
  using assms
  by (simp add: doPost_pl_def doPost_pl_body_def Let_def split: prod.splits)

lemma doPost_ar_answer:
  assumes "\<not> isPreflight e" and "postData e = Some (Payload d)"
  shows "fst (doPost_ar P ps st e) = JsonOutput
     [(''status'', JStr (if success (fst (logAccessRequest P st rd)) then ''success'' else ''error'')),
      (''message'', JStr (lr_message (fst (logAccessRequest P st rd)))),
      (''pinValid'', JBool (truthy (orDefault (pin d) (JStr []))
                           \<and> validatePin P ps (orDefault (pin d) (JStr [])))),
      (''pinProvided'', JBool (truthy (orDefault (pin d) (JStr [])))),
      (''timestamp'', JStr (createReadableTimestamp P))]"
proof -
  let ?p = "orDefault (pin d) (JStr [])"
  let ?rd = "\<lparr>rd_url = orDefault (url d) (JStr []), rd_title = orDefault (title d) (JStr []),
      rd_timestamp = orDefault (timestamp d) (JStr (createReadableTimestamp P)),
      rd_userEmail = orDefault (userEmail d) (JStr []), rd_pin = ?p,
      rd_isPinValid = (if truthy ?p then validatePin P ps ?p else False)\<rparr>"
  from assms have "fst (doPost_ar P ps st e) = JsonOutput
     [(''status'', JStr (if success (fst (logAccessRequest P st ?rd)) then ''success'' else ''error'')),
      (''message'', JStr (lr_message (fst (logAccessRequest P st ?rd)))),
      (''pinValid'', JBool (if truthy ?p then validatePin P ps ?p else False)),
      (''pinProvided'', JBool (truthy ?p)),
      (''timestamp'', JStr (createReadableTimestamp P))]"
    by (simp add: doPost_ar_def doPost_ar_body_def Let_def split: prod.splits)
  with logAccessRequest_result[of P st ?rd rd] show ?thesis by simp
qed

lemma body_throws:
  "(doPost_pl_body P st e = Inl err) = (\<not> isPreflight e \<and> postData e = Some (Unparsable err))"
  "(doPost_ar_body P ps st' e = Inl err) = (\<not> isPreflight e \<and> postData e = Some (Unparsable err))"
  by (auto simp: doPost_pl_body_def doPost_ar_body_def Let_def isPreflight_def
      split: option.splits body.splits prod.splits)

text \<open>
  C4, as the code has it. For a request that is no preflight:
  \<^item> the two URL logging handlers answer with one of the four JSON objects of the claim;
  \<^item> the PIN handler of part 001 answers with a success that carries the message PIN valid,
    with the failure for an invalid PIN, or with an error and its message;
  \<^item> the handler of the PIN validation script answers a request whose post data parse with an
    object of the four fields status, message, pin and timestamp; the status is success when
    \<open>validatePinFromSheet\<close> found the PIN valid and error when it did not, and the message is
    the message of the validation;
  \<^item> the handler of the access request script answers such a request with an object of the
    five fields status, message, pinValid, pinProvided and timestamp; the status is success
    when \<open>logAccessRequest\<close> succeeded and error when it did not, which does not depend on the
    request, and the verdict on the PIN stands in pinValid;
  \<^item> the body of the last two handlers throws exactly when the post data do not parse.

  In each of the five handlers an exception thrown in the body is caught and comes back as
  the error object of that handler, with the text of the exception in its message: status
  and message in the URL logging handlers and in part 001; status, message (after the words
  Internal server error) and timestamp in the other two.
\<close>

theorem handler_responses:
  "(\<not> isPreflight e \<longrightarrow>
      isOneOfFour (fst (doPost_p0 P ps st e)) \<and> isOneOfFour (fst (doPost_v2 P ps st e))
      \<and> (doPost_p1 P ps e
            = JsonOutput [(''status'', JStr ''success''), (''message'', JStr ''PIN valid'')]
          \<or> doPost_p1 P ps e = JsonOutput failureBody
          \<or> (\<exists>m. doPost_p1 P ps e = JsonOutput (errorBody m))))
   \<and> (\<not> isPreflight e \<and> postData e = Some (Payload d) \<longrightarrow>
        fst (doPost_pl P ps e) = JsonOutput
          [(''status'',
            JStr (if isValid (fst (validatePinFromSheet P ps (orDefault (pin d) (JStr []))))
                  then ''success'' else ''error'')),
           (''message'',
            JStr (message (fst (validatePinFromSheet P ps (orDefault (pin d) (JStr [])))))),
           (''pin'', orDefault (pin d) (JStr [])),
           (''timestamp'', JStr (toISOString P (clock P)))]
      \<and> fst (doPost_ar P ps st e) = JsonOutput
          [(''status'',
            JStr (if success (fst (logAccessRequest P st rd)) then ''success'' else ''error'')),
           (''message'', JStr (lr_message (fst (logAccessRequest P st rd)))),
           (''pinValid'', JBool (truthy (orDefault (pin d) (JStr []))
                                \<and> validatePin P ps (orDefault (pin d) (JStr [])))),
           (''pinProvided'', JBool (truthy (orDefault (pin d) (JStr [])))),
           (''timestamp'', JStr (createReadableTimestamp P))])
   \<and> (doPost_pl_body P ps e = Inl err)
       = (\<not> isPreflight e \<and> postData e = Some (Unparsable err))
   \<and> (doPost_ar_body P ps st e = Inl err)
       = (\<not> isPreflight e \<and> postData e = Some (Unparsable err))
   \<and> (doPost_p0_body P ps st e = Inl err \<longrightarrow>
        doPost_p0 P ps st e = (JsonOutput (errorBody (exnToString err)), st))
   \<and> (doPost_v2_body P ps st e = Inl err \<longrightarrow>
        doPost_v2 P ps st e = (JsonOutput (errorBody (exnToString err)), st))
   \<and> (doPost_p1_body P ps e = Inl err \<longrightarrow>
        doPost_p1 P ps e = JsonOutput (errorBody (exnToString err)))
   \<and> (doPost_pl_body P ps e = Inl err \<longrightarrow>
        doPost_pl P ps e =
          (JsonOutput [(''status'', JStr ''error''),
             (''message'', JStr (''Internal server error: '' @ exnToString err)),
             (''timestamp'', JStr (toISOString P (clock P)))], ps))
   \<and> (doPost_ar_body P ps st e = Inl err \<longrightarrow>
        doPost_ar P ps st e =
          (JsonOutput [(''status'', JStr ''error''),
             (''message'', JStr (''Internal server error: '' @ exnToString err)),
             (''timestamp'', JStr (createReadableTimestamp P))], st))"
proof -
  have a: "isOneOfFour (fst (doPost_p0 P ps st e))" "isOneOfFour (fst (doPost_v2 P ps st e))"
    if "\<not> isPreflight e"
    using doPost_p0_answers[OF that, of P ps st] doPost_v2_answers[OF that, of P ps st]
    by (auto simp: doPost_p0_def doPost_v2_def respond_isOneOfFour error_isOneOfFour)
  have c: "doPost_p0_body P ps st e = Inl err \<longrightarrow>
        doPost_p0 P ps st e = (JsonOutput (errorBody (exnToString err)), st)"
    "doPost_v2_body P ps st e = Inl err \<longrightarrow>
        doPost_v2 P ps st e = (JsonOutput (errorBody (exnToString err)), st)"
    "doPost_p1_body P ps e = Inl err \<longrightarrow>
        doPost_p1 P ps e = JsonOutput (errorBody (exnToString err))"
    "doPost_pl_body P ps e = Inl err \<longrightarrow>
        doPost_pl P ps e =
          (JsonOutput [(''status'', JStr ''error''),
             (''message'', JStr (''Internal server error: '' @ exnToString err)),
             (''timestamp'', JStr (toISOString P (clock P)))], ps)"
    "doPost_ar_body P ps st e = Inl err \<longrightarrow>
        doPost_ar P ps st e =
          (JsonOutput [(''status'', JStr ''error''),
             (''message'', JStr (''Internal server error: '' @ exnToString err)),
             (''timestamp'', JStr (createReadableTimestamp P))], st)"
    by (simp_all add: doPost_p0_def doPost_v2_def doPost_p1_def doPost_pl_def doPost_ar_def)
  show ?thesis
    using a doPost_p1_answers[of e P ps] doPost_pl_answer[of e d P ps]
      doPost_ar_answer[of e d P ps st rd] body_throws(1)[of P ps e err]
      body_throws(2)[of P ps st e err] c
    by blast
qed

lemma demo_wrong_pin_pl:
  "fst (doPost_pl demoHost (Inr demoPins) (demoEvent ''2025-06-06T17:00:00Z'' ''wrong''))
     = JsonOutput [(''status'', JStr ''error''),
         (''message'', JStr ''Invalid PIN. Please check your PIN and try again.''),
         (''pin'', JStr ''wrong''), (''timestamp'', JStr ''2025-06-06T17:00:00.000Z'')]"
  by (simp add: doPost_pl_def doPost_pl_body_def demoEvent_posts demoPayload_def orDefault_def
      demoPins_validatePinFromSheet string_eval case_eval)
     (simp add: demo_defs)

text \<open>
  C4 as stated fails: the handler of the PIN validation script answers an invalid PIN with a
  JSON object of four fields whose status is error, which is none of the four objects.
\<close>

theorem response_claim_fails:
  "fst (doPost_pl demoHost (Inr demoPins) (demoEvent ''2025-06-06T17:00:00Z'' ''wrong''))
     = JsonOutput [(''status'', JStr ''error''),
         (''message'', JStr ''Invalid PIN. Please check your PIN and try again.''),
         (''pin'', JStr ''wrong''), (''timestamp'', JStr ''2025-06-06T17:00:00.000Z'')]
   \<and> \<not> isOneOfFour
         (fst (doPost_pl demoHost (Inr demoPins) (demoEvent ''2025-06-06T17:00:00Z'' ''wrong'')))"
  by (simp add: demo_wrong_pin_pl long_body_not_one_of_four)

lemma badEvent_throws:
  "\<not> isPreflight badEvent"
  "postData badEvent = Some (Unparsable (Exn ''SyntaxError: Unexpected end of JSON input''))"
  "doPost_p0_body demoHost (Inr demoPins) (Inr demoLog) badEvent
     = Inl (Exn ''SyntaxError: Unexpected end of JSON input'')"
  "doPost_v2_body demoHost (Inr demoPins) (Inr demoLog) badEvent
     = Inl (Exn ''SyntaxError: Unexpected end of JSON input'')"
  "doPost_p1_body demoHost (Inr demoPins) badEvent
     = Inl (Exn ''SyntaxError: Unexpected end of JSON input'')"
  by (simp_all add: isPreflight_def badEvent_def doPost_p0_body_def doPost_v2_body_def
      doPost_p1_body_def)

lemma demo_wrong_pin_values:
  "orDefault (pin (demoPayload ts ''wrong'')) (JStr []) = JStr ''wrong''"
  "\<not> isValid (fst (validatePinFromSheet demoHost (Inr demoPins) (JStr ''wrong'')))"
  "message (fst (validatePinFromSheet demoHost (Inr demoPins) (JStr ''wrong'')))
     = ''Invalid PIN. Please check your PIN and try again.''"
  "\<not> validatePin demoHost (Inr demoPins) (JStr ''wrong'')"
  "success (fst (logAccessRequest demoHost (Inr demoLog) rd))"
  "lr_message (fst (logAccessRequest demoHost (Inr demoLog) rd))
     = ''Access request logged successfully.''"
  "toISOString demoHost (clock demoHost) = ''2025-06-06T17:00:00.000Z''"
  "createReadableTimestamp demoHost = ''Friday, Jun 06, 2025 05:00 PM''"
         apply (simp add: demoPayload_def orDefault_def)
        apply (simp add: demoPins_validatePinFromSheet string_eval case_eval)
       apply (simp add: demoPins_validatePinFromSheet string_eval case_eval)
      apply (simp add: demoPins_validatePin string_eval)
     apply (simp add: logAccessRequest_def getOrCreateAccessRequestSheet_def demoLog_found)
    apply (simp add: logAccessRequest_def getOrCreateAccessRequestSheet_def demoLog_found)
   apply (simp add: demo_defs)
  apply (simp add: createReadableTimestamp_def demo_defs)
  done

theorem handler_responses_witness:
  "\<not> isPreflight badEvent
   \<and> postData badEvent = Some (Unparsable (Exn ''SyntaxError: Unexpected end of JSON input''))
   \<and> doPost_p0_body demoHost (Inr demoPins) (Inr demoLog) badEvent
       = Inl (Exn ''SyntaxError: Unexpected end of JSON input'')
   \<and> doPost_v2_body demoHost (Inr demoPins) (Inr demoLog) badEvent
       = Inl (Exn ''SyntaxError: Unexpected end of JSON input'')
   \<and> doPost_p1_body demoHost (Inr demoPins) badEvent
       = Inl (Exn ''SyntaxError: Unexpected end of JSON input'')
   \<and> isOneOfFour (fst (doPost_p0 demoHost (Inr demoPins) (Inr demoLog) badEvent))
   \<and> doPost_p0 demoHost (Inr demoPins) (Inr demoLog) badEvent
       = (JsonOutput (errorBody ''SyntaxError: Unexpected end of JSON input''), Inr demoLog)
   \<and> doPost_v2 demoHost (Inr demoPins) (Inr demoLog) badEvent
       = (JsonOutput (errorBody ''SyntaxError: Unexpected end of JSON input''), Inr demoLog)
   \<and> doPost_p1 demoHost (Inr demoPins) badEvent
       = JsonOutput (errorBody ''SyntaxError: Unexpected end of JSON input'')
   \<and> doPost_pl demoHost (Inr demoPins) badEvent
       = (JsonOutput [(''status'', JStr ''error''),
            (''message'',
             JStr ''Internal server error: SyntaxError: Unexpected end of JSON input''),
            (''timestamp'', JStr ''2025-06-06T17:00:00.000Z'')], Inr demoPins)
   \<and> doPost_ar demoHost (Inr demoPins) (Inr demoLog) badEvent
       = (JsonOutput [(''status'', JStr ''error''),
            (''message'',
             JStr ''Internal server error: SyntaxError: Unexpected end of JSON input''),
            (''timestamp'', JStr ''Friday, Jun 06, 2025 05:00 PM'')], Inr demoLog)
   \<and> \<not> isPreflight (demoEvent ''2025-06-06T17:00:00Z'' ''wrong'')
   \<and> postData (demoEvent ''2025-06-06T17:00:00Z'' ''wrong'')
       = Some (Payload (demoPayload ''2025-06-06T17:00:00Z'' ''wrong''))
   \<and> fst (doPost_pl demoHost (Inr demoPins) (demoEvent ''2025-06-06T17:00:00Z'' ''wrong''))
       = JsonOutput [(''status'', JStr ''error''),
           (''message'', JStr ''Invalid PIN. Please check your PIN and try again.''),
           (''pin'', JStr ''wrong''), (''timestamp'', JStr ''2025-06-06T17:00:00.000Z'')]
   \<and> fst (doPost_ar demoHost (Inr demoPins) (Inr demoLog)
            (demoEvent ''2025-06-06T17:00:00Z'' ''wrong''))
       = JsonOutput [(''status'', JStr ''success''),
           (''message'', JStr ''Access request logged successfully.''),
           (''pinValid'', JBool False), (''pinProvided'', JBool True),
           (''timestamp'', JStr ''Friday, Jun 06, 2025 05:00 PM'')]"
proof -
  note b = badEvent_throws
  note t = handler_responses[where e = badEvent and P = demoHost and ps = "Inr demoPins"
      and st = "Inr demoLog" and err = "Exn ''SyntaxError: Unexpected end of JSON input''"]
  from t b have 1: "isOneOfFour (fst (doPost_p0 demoHost (Inr demoPins) (Inr demoLog) badEvent))"
    by blast
  from t b have "doPost_p0 demoHost (Inr demoPins) (Inr demoLog) badEvent
       = (JsonOutput (errorBody (exnToString (Exn ''SyntaxError: Unexpected end of JSON input''))),
          Inr demoLog)"
    by blast
  then have 2: "doPost_p0 demoHost (Inr demoPins) (Inr demoLog) badEvent
       = (JsonOutput (errorBody ''SyntaxError: Unexpected end of JSON input''), Inr demoLog)"
    by simp
  from t b have "doPost_v2 demoHost (Inr demoPins) (Inr demoLog) badEvent
       = (JsonOutput (errorBody (exnToString (Exn ''SyntaxError: Unexpected end of JSON input''))),
          Inr demoLog)"
    by blast
  then have 3: "doPost_v2 demoHost (Inr demoPins) (Inr demoLog) badEvent
       = (JsonOutput (errorBody ''SyntaxError: Unexpected end of JSON input''), Inr demoLog)"
    by simp
  from t b have "doPost_p1 demoHost (Inr demoPins) badEvent
       = JsonOutput (errorBody (exnToString (Exn ''SyntaxError: Unexpected end of JSON input'')))"
    by blast
  then have 4: "doPost_p1 demoHost (Inr demoPins) badEvent
       = JsonOutput (errorBody ''SyntaxError: Unexpected end of JSON input'')"
    by simp
  from t b(1,2) have "doPost_pl demoHost (Inr demoPins) badEvent
       = (JsonOutput [(''status'', JStr ''error''),
            (''message'', JStr (''Internal server error: ''
               @ exnToString (Exn ''SyntaxError: Unexpected end of JSON input''))),
            (''timestamp'', JStr (toISOString demoHost (clock demoHost)))], Inr demoPins)"
    by blast
  then have 5: "doPost_pl demoHost (Inr demoPins) badEvent
       = (JsonOutput [(''status'', JStr ''error''),
            (''message'',
             JStr ''Internal server error: SyntaxError: Unexpected end of JSON input''),
            (''timestamp'', JStr ''2025-06-06T17:00:00.000Z'')], Inr demoPins)"
    by (simp add: demo_wrong_pin_values)
  from t b(1,2) have "doPost_ar demoHost (Inr demoPins) (Inr demoLog) badEvent
       = (JsonOutput [(''status'', JStr ''error''),
            (''message'', JStr (''Internal server error: ''
               @ exnToString (Exn ''SyntaxError: Unexpected end of JSON input''))),
            (''timestamp'', JStr (createReadableTimestamp demoHost))], Inr demoLog)"
    by blast
  then have 6: "doPost_ar demoHost (Inr demoPins) (Inr demoLog) badEvent
       = (JsonOutput [(''status'', JStr ''error''),
            (''message'',
             JStr ''Internal server error: SyntaxError: Unexpected end of JSON input''),
            (''timestamp'', JStr ''Friday, Jun 06, 2025 05:00 PM'')], Inr demoLog)"
    by (simp add: demo_wrong_pin_values)
  note p = demoEvent_posts[of "''2025-06-06T17:00:00Z''" "''wrong''"]
  from handler_responses[where e = "demoEvent ''2025-06-06T17:00:00Z'' ''wrong''"
      and P = demoHost and ps = "Inr demoPins"
      and d = "demoPayload ''2025-06-06T17:00:00Z'' ''wrong''"] p
  have "fst (doPost_pl demoHost (Inr demoPins) (demoEvent ''2025-06-06T17:00:00Z'' ''wrong''))
      = JsonOutput
          [(''status'',
            JStr (if isValid (fst (validatePinFromSheet demoHost (Inr demoPins)
                      (orDefault (pin (demoPayload ''2025-06-06T17:00:00Z'' ''wrong'')) (JStr []))))
                  then ''success'' else ''error'')),
           (''message'',
            JStr (message (fst (validatePinFromSheet demoHost (Inr demoPins)
                      (orDefault (pin (demoPayload ''2025-06-06T17:00:00Z'' ''wrong'')) (JStr [])))))),
           (''pin'', orDefault (pin (demoPayload ''2025-06-06T17:00:00Z'' ''wrong'')) (JStr [])),
           (''timestamp'', JStr (toISOString demoHost (clock demoHost)))]"
    by blast
  then have 7: "fst (doPost_pl demoHost (Inr demoPins) (demoEvent ''2025-06-06T17:00:00Z'' ''wrong''))
       = JsonOutput [(''status'', JStr ''error''),
           (''message'', JStr ''Invalid PIN. Please check your PIN and try again.''),
           (''pin'', JStr ''wrong''), (''timestamp'', JStr ''2025-06-06T17:00:00.000Z'')]"
    by (simp add: demo_wrong_pin_values)
  from handler_responses[where e = "demoEvent ''2025-06-06T17:00:00Z'' ''wrong''"
      and P = demoHost and ps = "Inr demoPins" and st = "Inr demoLog"
      and d = "demoPayload ''2025-06-06T17:00:00Z'' ''wrong''" and rd = demoRequest] p
  have "fst (doPost_ar demoHost (Inr demoPins) (Inr demoLog)
            (demoEvent ''2025-06-06T17:00:00Z'' ''wrong''))
      = JsonOutput
          [(''status'',
            JStr (if success (fst (logAccessRequest demoHost (Inr demoLog) demoRequest))
                  then ''success'' else ''error'')),
           (''message'', JStr (lr_message (fst (logAccessRequest demoHost (Inr demoLog) demoRequest)))),
           (''pinValid'',
            JBool (truthy (orDefault (pin (demoPayload ''2025-06-06T17:00:00Z'' ''wrong'')) (JStr []))
                   \<and> validatePin demoHost (Inr demoPins)
                        (orDefault (pin (demoPayload ''2025-06-06T17:00:00Z'' ''wrong'')) (JStr [])))),
           (''pinProvided'',
            JBool (truthy (orDefault (pin (demoPayload ''2025-06-06T17:00:00Z'' ''wrong'')) (JStr [])))),
           (''timestamp'', JStr (createReadableTimestamp demoHost))]"
    by blast
  then have 8: "fst (doPost_ar demoHost (Inr demoPins) (Inr demoLog)
            (demoEvent ''2025-06-06T17:00:00Z'' ''wrong''))
       = JsonOutput [(''status'', JStr ''success''),
           (''message'', JStr ''Access request logged successfully.''),
           (''pinValid'', JBool False), (''pinProvided'', JBool True),
           (''timestamp'', JStr ''Friday, Jun 06, 2025 05:00 PM'')]"
    by (simp add: demo_wrong_pin_values)
  from b 1 2 3 4 5 6 p 7 8 show ?thesis by (intro conjI)
qed

end
